theory Spec2Isabelle
  imports Main
begin

section \<open>Tiers and the narrative classifier\<close>

text \<open>
  The source names a tier by one of seven string literals; \<open>runBot\<close> additionally uses the
  literal \<open>'unknown'\<close> for the seller tier of an event that carries no seller. The closed set
  of these eight literals is the datatype \<open>tier\<close>.
\<close>

datatype tier =
  Associate | Soldier | Caporegime | Consigliere | Underboss | Godfather | Commission
  | Unknown

datatype narrative = Empire_falls | Consolidation | Business_as_usual

text \<open>\<open>getHolderTier\<close> (bot.js:162, bot.js:1018, part_000:92): the same chain of tests in all
  three drafts.\<close>

definition getHolderTier :: "int \<Rightarrow> tier" where
  "getHolderTier nftCount =
     (if nftCount \<ge> 100 then Commission
      else if nftCount \<ge> 25 then Godfather
      else if nftCount \<ge> 20 then Underboss
      else if nftCount \<ge> 15 then Consigliere
      else if nftCount \<ge> 10 then Caporegime
      else if nftCount \<ge> 5 then Soldier
      else Associate)"

text \<open>The object literal \<open>ranks\<close> inside \<open>getTierRank\<close>; \<open>'unknown'\<close> is not one of its keys.\<close>

fun ranks :: "tier \<Rightarrow> int option" where
  "ranks Associate = Some 1"
| "ranks Soldier = Some 2"
| "ranks Caporegime = Some 3"
| "ranks Consigliere = Some 4"
| "ranks Underboss = Some 5"
| "ranks Godfather = Some 6"
| "ranks Commission = Some 7"
| "ranks Unknown = None"

text \<open>\<open>getTierRank\<close> (bot.js:277, bot.js:1119, part_000:195): \<open>ranks[tier] || 1\<close>, where
  \<open>||\<close> takes the right operand when the left one is \<open>undefined\<close> or \<open>0\<close>.\<close>

definition getTierRank :: "tier \<Rightarrow> int" where
  "getTierRank t = (case ranks t of None \<Rightarrow> 1 | Some r \<Rightarrow> if r = 0 then 1 else r)"

text \<open>\<open>getTransactionStory\<close> (bot.js:290, bot.js:1132). The two count parameters are taken
  and never read.\<close>

definition getTransactionStory :: "tier \<Rightarrow> tier \<Rightarrow> int \<Rightarrow> int \<Rightarrow> narrative" where
  "getTransactionStory buyerTier sellerTier buyerCount sellerCount =
     (let buyerRank = getTierRank buyerTier;
          sellerRank = getTierRank sellerTier
      in if sellerRank > buyerRank + 1 then Empire_falls
         else if buyerRank > sellerRank + 1 then Consolidation
         else Business_as_usual)"

text \<open>\<open>statusTemplates\<close> (part_000:84): the text shown for each narrative.\<close>

fun statusTemplates :: "narrative \<Rightarrow> string" where
  "statusTemplates Empire_falls = ''POWER VACUUM''"
| "statusTemplates Consolidation = ''EMPIRE EXPANSION''"
| "statusTemplates Business_as_usual = ''FAMILY BUSINESS''"

text \<open>\<open>getTransactionStatus\<close> (part_000:208).\<close>

definition getTransactionStatus :: "tier \<Rightarrow> tier \<Rightarrow> string" where
  "getTransactionStatus buyerTier sellerTier =
     (let buyerRank = getTierRank buyerTier;
          sellerRank = getTierRank sellerTier
      in if sellerRank > buyerRank + 1 then statusTemplates Empire_falls
         else if buyerRank > sellerRank + 1 then statusTemplates Consolidation
         else statusTemplates Business_as_usual)"

text \<open>The threshold table as the specification states it: each tier with its minimum
  holding count, lowest tier first.\<close>

definition tier_thresholds :: "(tier \<times> int) list" where
  "tier_thresholds =
     [(Associate, 0), (Soldier, 5), (Caporegime, 10), (Consigliere, 15),
      (Underboss, 20), (Godfather, 25), (Commission, 100)]"


section \<open>The retry executor\<close>

text \<open>
  An awaited call is a function on the state of the outside world: it answers an error
  (the rejection of the promise) or a result, and leaves the world changed. The executor's
  own observable steps are recorded in a trace: \<open>Invoked k\<close> when attempt \<open>k\<close> calls the
  action, \<open>Waited ms\<close> when a timer of \<open>ms\<close> milliseconds is awaited.
\<close>

type_synonym ('s, 'e, 'a) action = "'s \<Rightarrow> ('e + 'a) \<times> 's"

datatype event = Invoked int | Waited int

text \<open>
  What an action rejects with, as far as the executor tells values apart: \<open>null\<close> or
  \<open>undefined\<close>, of which no property can be read, or any other value. The other values
  are plain data (Error objects, strings, numbers), off which \<open>message\<close> can be read; an
  object whose \<open>message\<close> is an accessor that throws is not among them.
\<close>

datatype 'e thrown = Nullish | Raised (the_raised: 'e)

text \<open>
  How a call of the executor ends: it returns the action's result, it rethrows what the
  action rejected with, it throws the \<open>TypeError\<close> of reading \<open>error.message\<close> off a
  \<open>null\<close> or \<open>undefined\<close> rejection, or it falls out of the loop and returns \<open>undefined\<close>.
\<close>

datatype ('a, 'e) outcome = Returned 'a | Threw 'e | ThrewTypeError | ReturnedUndefined

text \<open>
  The \<open>for\<close> loop of \<open>apiCallWithRetry\<close> (bot.js:38, bot.js:894, part_000:29), entered with
  the current value of \<open>attempt\<close>. The \<open>catch\<close> block first logs \<open>error.message\<close>: when the
  rejection is \<open>null\<close> or \<open>undefined\<close> that read throws, out of the function, before the
  test of \<open>attempt === maxRetries\<close> and before any wait. Falling out of the loop reaches
  the end of the function body, whose value is \<open>undefined\<close>. The loop variable starts at 1,
  so the exponent \<open>attempt - 1\<close> of \<open>Math.pow\<close> is never negative; \<open>maxRetries\<close> and \<open>delay\<close>
  are integers.
\<close>

function apiCallWithRetry_from ::
  "('s, 'e thrown, 'a) action \<Rightarrow> int \<Rightarrow> int \<Rightarrow> int \<Rightarrow> 's \<Rightarrow> event list
     \<Rightarrow> ('a, 'e) outcome \<times> 's \<times> event list" where
  "apiCallWithRetry_from apiCall maxRetries delay attempt s tr =
     (if attempt \<le> maxRetries then
        (case apiCall s of
           (Inr result, s') \<Rightarrow> (Returned result, s', tr @ [Invoked attempt])
         | (Inl error, s') \<Rightarrow>
             (case error of
                Nullish \<Rightarrow> (ThrewTypeError, s', tr @ [Invoked attempt])
              | Raised e \<Rightarrow>
                  if attempt = maxRetries then (Threw e, s', tr @ [Invoked attempt])
                  else apiCallWithRetry_from apiCall maxRetries delay (attempt + 1) s'
                         (tr @ [Invoked attempt, Waited (delay * 2 ^ nat (attempt - 1))])))
      else (ReturnedUndefined, s, tr))"
  by pat_completeness auto
termination
  by (relation "measure (\<lambda>(apiCall, maxRetries, delay, attempt, s, tr).
        nat (maxRetries + 1 - attempt))") auto

declare apiCallWithRetry_from.simps [simp del]

definition apiCallWithRetry ::
  "('s, 'e thrown, 'a) action \<Rightarrow> int \<Rightarrow> int \<Rightarrow> 's \<Rightarrow> ('a, 'e) outcome \<times> 's \<times> event list" where
  "apiCallWithRetry apiCall maxRetries delay s =
     apiCallWithRetry_from apiCall maxRetries delay 1 s []"

definition RETRY_DELAY :: int where "RETRY_DELAY = 2000"

text \<open>Reading a trace: the attempts that called the action, and the delays awaited.\<close>

fun invocations :: "event list \<Rightarrow> int list" where
  "invocations [] = []"
| "invocations (Invoked k # es) = k # invocations es"
| "invocations (Waited ms # es) = invocations es"

fun waits :: "event list \<Rightarrow> int list" where
  "waits [] = []"
| "waits (Invoked k # es) = waits es"
| "waits (Waited ms # es) = ms # waits es"

text \<open>The world after \<open>n\<close> calls of an action, whatever they answered.\<close>

text \<open>An action whose rejections are Error objects (or any values other than \<open>null\<close> and
  \<open>undefined\<close>): what the HTTP client, the Twitter client and the file system reject with,
  and what the code itself throws.\<close>

definition raising :: "('s, 'e, 'a) action \<Rightarrow> ('s, 'e thrown, 'a) action" where
  "raising f s = (case f s of (Inl e, s') \<Rightarrow> (Inl (Raised e), s') | (Inr a, s') \<Rightarrow> (Inr a, s'))"

definition world_after :: "('s, 'e, 'a) action \<Rightarrow> nat \<Rightarrow> 's \<Rightarrow> 's" where
  "world_after apiCall n s = ((snd \<circ> apiCall) ^^ n) s"

text \<open>The trace of a run in which every attempt from \<open>a\<close> to \<open>n\<close> fails: each attempt
  before the last is followed by its backoff wait.\<close>

definition backoff_trace :: "int \<Rightarrow> int \<Rightarrow> int \<Rightarrow> event list" where
  "backoff_trace delay a n =
     concat (map (\<lambda>k. [Invoked k, Waited (delay * 2 ^ nat (k - 1))]) [a..n - 1]) @ [Invoked n]"


section \<open>JavaScript values and sale events\<close>

text \<open>
  The values a JSON field can hold, as far as the code tells them apart, and a number that
  may be \<open>NaN\<close>. \<open>truthy\<close> is JavaScript's conversion to a boolean: \<open>undefined\<close>, \<open>null\<close>,
  the number 0 and the empty string are falsy, every other value (the string \<open>"0"\<close>
  included) is truthy.
\<close>

datatype jsval = JUndefined | JNull | JNum int | JStr string

datatype jsnum = NaN | Num int

fun truthy :: "jsval \<Rightarrow> bool" where
  "truthy JUndefined = False"
| "truthy JNull = False"
| "truthy (JNum n) = (n \<noteq> 0)"
| "truthy (JStr s) = (s \<noteq> [])"

text \<open>An optional string field: absent or empty is falsy.\<close>

fun truthy_str :: "string option \<Rightarrow> bool" where
  "truthy_str None = False"
| "truthy_str (Some s) = (s \<noteq> [])"

text \<open>\<open>a > b\<close> where \<open>a\<close> may be \<open>undefined\<close> and \<open>b\<close> may be \<open>NaN\<close>: false unless both are
  numbers.\<close>

fun js_gt :: "int option \<Rightarrow> jsnum \<Rightarrow> bool" where
  "js_gt (Some a) (Num b) = (a > b)"
| "js_gt _ _ = False"

datatype error = ApiError | TypeError | RangeError | IOError

text \<open>
  A marketplace event, with the fields the code reads. \<open>payment.quantity\<close> is the amount,
  which the marketplace sends as a decimal string (\<open>formatPrice\<close> compares it with \<open>'0'\<close>);
  \<open>sale.quantity\<close> is the number of items, an integer in the marketplace's schema and
  below \<open>10^21\<close> in magnitude: there \<open>parseInt\<close>, which reads the decimal string of the
  number, is the identity (from \<open>10^21\<close> on the string is in exponent form and \<open>parseInt\<close>
  reads its leading digit only). \<open>winner_account\<close> (its address) and \<open>asset\<close> (its
  name) are fields of an older event format that only \<open>createSaleImage\<close> reads.
\<close>

record payment =
  quantity :: jsval

record nft_payload =
  "identifier" :: string
  image_url :: "string option"

record sale =
  event_type :: string
  nft :: "nft_payload option"
  buyer :: "string option"
  seller :: "string option"
  quantity :: "int option"
  payment :: "payment option"
  event_timestamp :: "int option"
  winner_account :: "string option"
  asset :: "string option"

text \<open>\<open>isValidSaleEvent\<close> (bot.js:76, bot.js:932, part_000:67), test by test.\<close>

definition isValidSaleEvent :: "sale \<Rightarrow> bool" where
  "isValidSaleEvent sale =
     (if event_type sale \<noteq> ''sale'' then False
      else if nft sale = None \<or> \<not> truthy_str (buyer sale) then False
      else if (case sale.quantity sale of None \<Rightarrow> False | Some q \<Rightarrow> q \<noteq> 0 \<and> q > 1) then False
      else if (case payment sale of None \<Rightarrow> True | Some p \<Rightarrow> \<not> truthy (payment.quantity p))
        then False
      else True)"

text \<open>The first test of \<open>formatPrice\<close> (bot.js:61): when it holds the price is printed as
  \<open>'Price undisclosed'\<close>.\<close>

definition price_undisclosed :: "payment option \<Rightarrow> bool" where
  "price_undisclosed pay =
     (case pay of None \<Rightarrow> True
      | Some p \<Rightarrow> \<not> truthy (payment.quantity p) \<or> payment.quantity p = JStr ''0'')"

text \<open>A single-item sale as the marketplace reports it, paid with the amount given.\<close>

definition sale_paying :: "jsval \<Rightarrow> int \<Rightarrow> sale" where
  "sale_paying amount t =
     \<lparr> event_type = ''sale'',
       nft = Some \<lparr> identifier = ''4521'', image_url = None \<rparr>,
       buyer = Some ''0x7a9b'',
       seller = Some ''0x51c3'',
       sale.quantity = Some 1,
       payment = Some \<lparr> payment.quantity = amount \<rparr>,
       event_timestamp = Some t,
       winner_account = None,
       asset = None \<rparr>"


section \<open>The outside world\<close>

text \<open>
  The parsed content of \<open>last-check.json\<close>: two optional timestamps, written by the bot
  as ISO-8601 strings and held here as the milliseconds they denote.
\<close>

record checkpoint =
  lastCheck :: "int option"
  lastFloorAlert :: "int option"

text \<open>What a tweet says, as far as control flow decides it: the floor report, or the report
  of a sale with the buyer's and the seller's tier and count.\<close>

datatype tweet_text = FloorReport | SaleReport sale "tier \<times> int" "tier \<times> int"

datatype buffer = SaleCard | FloorCard | Image string

text \<open>
  The journal of a run: \<open>Processing\<close> when the loop starts on an event, \<open>TweetCall\<close> for a
  call of \<open>twitterClient.v2.tweet\<close> with the number of media attached and whether it
  succeeded, \<open>FallbackTweetCall\<close> for the second call, without media, made in the handler of
  a failed first one, \<open>AssetsRequest\<close> for a page requested by the pagination loop, with the
  cursor sent.
\<close>

datatype entry =
    Processing sale
  | TweetCall tweet_text nat bool
  | FallbackTweetCall tweet_text bool
  | AssetsRequest "string option"

text \<open>
  The world a run acts on: the state of the remote services and of the machine (opaque),
  the checkpoint file (\<open>None\<close> when it is missing or does not parse), and the journal.
  Waits that only let time pass (\<open>sleep(OPENSEA_DELAY)\<close>, \<open>sleep(TWITTER_DELAY)\<close>), console
  output, and the wording of a message, case numbers included, have no counterpart here.
\<close>

record 'x world =
  remote :: 'x
  "file" :: "checkpoint option"
  journal :: "entry list"

record events_params =
  occurred_after :: "jsnum option"
  limit :: nat

record events_response =
  asset_events :: "sale list option"
  events :: "sale list option"

text \<open>A page of the assets endpoint, as the marketplace's schema has it: \<open>assets\<close> is an
  array or is missing, and the model keeps its length; the cursor \<open>next\<close> is a string or is
  missing.\<close>

record assets_response =
  assets :: "nat option"
  "next" :: "string option"

record floorNFT =
  token_id :: "string option"
  seller_address :: "string option"

text \<open>
  The services the code calls, each an arbitrary function of the opaque state: the clock,
  whether the canvas module loaded, the marketplace endpoints (events of the collection,
  NFTs of an account, assets of an owner from a cursor, cheapest listings, one NFT's image
  URL), the image download, the two Twitter calls and the file write.
\<close>

record 'x services =
  clock :: "'x \<Rightarrow> int"
  canvas :: bool
  get_events :: "events_params \<Rightarrow> ('x, error, events_response) action"
  get_account_nfts :: "string \<Rightarrow> ('x, error, nat option) action"
  get_assets :: "string option \<Rightarrow> string option \<Rightarrow> ('x, error, assets_response) action"
  get_listings :: "('x, error, floorNFT list option) action"
  get_nft :: "string option \<Rightarrow> ('x, error, string option) action"
  get_image :: "string \<Rightarrow> ('x, error, unit) action"
  uploadMedia :: "buffer option \<Rightarrow> ('x, error, unit) action"
  tweet :: "tweet_text \<Rightarrow> nat \<Rightarrow> ('x, error, unit) action"
  writeFile :: "checkpoint \<Rightarrow> ('x, error, unit) action"

definition call :: "('x, error, 'a) action \<Rightarrow> ('x world, error, 'a) action" where
  "call f w = (case f (remote w) of (r, x') \<Rightarrow> (r, w\<lparr>remote := x'\<rparr>))"

definition journal_add :: "entry \<Rightarrow> 'x world \<Rightarrow> 'x world" where
  "journal_add e w = w\<lparr>journal := journal w @ [e]\<rparr>"

text \<open>
  \<open>apiCallWithRetry(...).catch(error => d)\<close>: the result, or \<open>d\<close> when the executor threw.
  Every call site leaves \<open>maxRetries\<close> at its default 3, where the executor never returns
  \<open>undefined\<close> (lemma \<open>apiCallWithRetry_defined\<close>); that case is sent to \<open>d\<close> as well.
\<close>

definition or_default :: "'a \<Rightarrow> ('a, 'e) outcome \<times> 's \<times> event list \<Rightarrow> 'a \<times> 's" where
  "or_default d r =
     (case r of
        (Returned a, s, tr) \<Rightarrow> (a, s)
      | (Threw e, s, tr) \<Rightarrow> (d, s)
      | (ThrewTypeError, s, tr) \<Rightarrow> (d, s)
      | (ReturnedUndefined, s, tr) \<Rightarrow> (d, s))"


section \<open>The checkpoint store\<close>

text \<open>\<open>fs.writeFile('last-check.json', JSON.stringify(data))\<close>: the write fails or replaces
  the whole file.\<close>

definition write_checkpoint :: "'x services \<Rightarrow> checkpoint \<Rightarrow> ('x world, error, unit) action" where
  "write_checkpoint sv data w =
     (case call (writeFile sv data) w of
        (Inl e, w') \<Rightarrow> (Inl e, w')
      | (Inr u, w') \<Rightarrow> (Inr u, w'\<lparr>file := Some data\<rparr>))"

text \<open>\<open>getLastCheckTime\<close> (bot.js:649, bot.js:1259, part_000:336): the stored \<open>lastCheck\<close>,
  \<open>undefined\<close> when the file has none, one hour ago when the file cannot be read.\<close>

definition getLastCheckTime :: "'x services \<Rightarrow> 'x world \<Rightarrow> int option" where
  "getLastCheckTime sv w =
     (case file w of
        Some data \<Rightarrow> lastCheck data
      | None \<Rightarrow> Some (clock sv (remote w) - 60 * 60 * 1000))"

text \<open>\<open>updateLastCheckTime\<close> as in bot.js:661 and bot.js:1271: a fresh object with the one
  field \<open>lastCheck\<close> is written; a failed write throws.\<close>

definition updateLastCheckTime_v1 :: "'x services \<Rightarrow> ('x world, error, unit) action" where
  "updateLastCheckTime_v1 sv w =
     (let data = \<lparr> lastCheck = Some (clock sv (remote w)), lastFloorAlert = None \<rparr>
      in write_checkpoint sv data w)"

text \<open>\<open>updateLastCheckTime\<close> as in part_000:348: the stored object is read (an empty one
  when that fails), its \<open>lastCheck\<close> is set and it is written back; a failed write is logged.\<close>

definition updateLastCheckTime_v3 :: "'x services \<Rightarrow> 'x world \<Rightarrow> 'x world" where
  "updateLastCheckTime_v3 sv w =
     (let data = (case file w of Some d \<Rightarrow> d
                  | None \<Rightarrow> \<lparr> lastCheck = None, lastFloorAlert = None \<rparr>);
          data = data\<lparr>lastCheck := Some (clock sv (remote w))\<rparr>
      in snd (write_checkpoint sv data w))"

text \<open>\<open>updateLastFloorAlert\<close> (bot.js:392, bot.js:1234, part_000:311).\<close>

definition updateLastFloorAlert :: "'x services \<Rightarrow> 'x world \<Rightarrow> 'x world" where
  "updateLastFloorAlert sv w =
     (let data = (case file w of Some d \<Rightarrow> d
                  | None \<Rightarrow> \<lparr> lastCheck = None, lastFloorAlert = None \<rparr>);
          data = data\<lparr>lastFloorAlert := Some (clock sv (remote w))\<rparr>
      in snd (write_checkpoint sv data w))"

text \<open>\<open>shouldPostFloorAlert\<close>: the threshold is 20 hours in bot.js:373 and bot.js:1215 and
  72 hours in part_000:292.\<close>

definition shouldPostFloorAlert_after :: "int \<Rightarrow> 'x services \<Rightarrow> 'x world \<Rightarrow> bool" where
  "shouldPostFloorAlert_after hours sv w =
     (case file w of
        None \<Rightarrow> True
      | Some data \<Rightarrow>
          (case lastFloorAlert data of
             None \<Rightarrow> True
           | Some lastAlert \<Rightarrow> clock sv (remote w) - lastAlert \<ge> hours * (1000 * 60 * 60)))"

definition shouldPostFloorAlert_v1 :: "'x services \<Rightarrow> 'x world \<Rightarrow> bool" where
  "shouldPostFloorAlert_v1 = shouldPostFloorAlert_after 20"

definition shouldPostFloorAlert_v3 :: "'x services \<Rightarrow> 'x world \<Rightarrow> bool" where
  "shouldPostFloorAlert_v3 = shouldPostFloorAlert_after 72"

text \<open>The two stored fields, read off a world.\<close>

definition stored_lastCheck :: "'x world \<Rightarrow> int option" where
  "stored_lastCheck w = (case file w of None \<Rightarrow> None | Some d \<Rightarrow> lastCheck d)"

definition stored_lastFloorAlert :: "'x world \<Rightarrow> int option" where
  "stored_lastFloorAlert w = (case file w of None \<Rightarrow> None | Some d \<Rightarrow> lastFloorAlert d)"


section \<open>The event fetcher\<close>

text \<open>\<open>response.data.asset_events || response.data.events || []\<close>; an array, even an
  empty one, is truthy.\<close>

definition response_events :: "events_response \<Rightarrow> sale list" where
  "response_events response =
     (case asset_events response of
        Some es \<Rightarrow> es
      | None \<Rightarrow> (case events response of Some es \<Rightarrow> es | None \<Rightarrow> []))"

text \<open>\<open>Math.floor(new Date(lastCheck).getTime() / 1000)\<close>: \<open>NaN\<close> for an undefined
  \<open>lastCheck\<close>.\<close>

definition seconds_of :: "int option \<Rightarrow> jsnum" where
  "seconds_of lastCheck' = (case lastCheck' of None \<Rightarrow> NaN | Some ms \<Rightarrow> Num (ms div 1000))"

text \<open>\<open>fetchRecentSales\<close> as in bot.js:187: the function passed to the retry executor,
  then the whole. The checkpoint is not read.\<close>

definition fetchRecentSales_v1_call :: "'x services \<Rightarrow> ('x world, error, sale list) action" where
  "fetchRecentSales_v1_call sv w =
     (case call (get_events sv \<lparr> occurred_after = None, limit = 10 \<rparr>) w of
        (Inl e, w') \<Rightarrow> (Inl e, w')
      | (Inr response, w') \<Rightarrow> (Inr (filter isValidSaleEvent (response_events response)), w'))"

definition fetchRecentSales_v1 :: "'x services \<Rightarrow> 'x world \<Rightarrow> sale list \<times> 'x world" where
  "fetchRecentSales_v1 sv w =
     or_default [] (apiCallWithRetry (raising (fetchRecentSales_v1_call sv)) 3 RETRY_DELAY w)"

text \<open>\<open>fetchRecentSales\<close> as in bot.js:1043: the checkpoint is sent to the marketplace as
  \<open>occurred_after\<close>; what comes back is filtered for validity only. The log line formats
  \<open>lastCheck\<close> as a date, which throws a \<open>RangeError\<close> when it is undefined.\<close>

definition fetchRecentSales_v2_call :: "'x services \<Rightarrow> ('x world, error, sale list) action" where
  "fetchRecentSales_v2_call sv w =
     (let lastCheck' = getLastCheckTime sv w;
          lastCheckTimestamp = seconds_of lastCheck'
      in case call (get_events sv \<lparr> occurred_after = Some lastCheckTimestamp, limit = 20 \<rparr>) w of
           (Inl e, w') \<Rightarrow> (Inl e, w')
         | (Inr response, w') \<Rightarrow>
             if lastCheck' = None then (Inl RangeError, w')
             else (Inr (filter isValidSaleEvent (response_events response)), w'))"

definition fetchRecentSales_v2 :: "'x services \<Rightarrow> 'x world \<Rightarrow> sale list \<times> 'x world" where
  "fetchRecentSales_v2 sv w =
     or_default [] (apiCallWithRetry (raising (fetchRecentSales_v2_call sv)) 3 RETRY_DELAY w)"

text \<open>\<open>fetchRecentSales\<close> as in part_000:113: no \<open>occurred_after\<close>; the events are filtered
  by \<open>event.event_timestamp > lastCheckTimestamp\<close> and then for validity.\<close>

definition fetchRecentSales_v3_call :: "'x services \<Rightarrow> ('x world, error, sale list) action" where
  "fetchRecentSales_v3_call sv w =
     (let lastCheck' = getLastCheckTime sv w;
          lastCheckTimestamp = seconds_of lastCheck'
      in case call (get_events sv \<lparr> occurred_after = None, limit = 50 \<rparr>) w of
           (Inl e, w') \<Rightarrow> (Inl e, w')
         | (Inr response, w') \<Rightarrow>
             (let recentEvents =
                    filter (\<lambda>event. js_gt (event_timestamp event) lastCheckTimestamp)
                      (response_events response)
              in if lastCheck' = None then (Inl RangeError, w')
                 else (Inr (filter isValidSaleEvent recentEvents), w')))"

definition fetchRecentSales_v3 :: "'x services \<Rightarrow> 'x world \<Rightarrow> sale list \<times> 'x world" where
  "fetchRecentSales_v3 sv w =
     or_default [] (apiCallWithRetry (raising (fetchRecentSales_v3_call sv)) 3 RETRY_DELAY w)"


section \<open>The account rank resolver\<close>

text \<open>
  The \<open>while\<close> loop of \<open>getHolderNFTCount\<close> in bot.js:213, entered with the current values
  of \<open>hasMore\<close>, \<open>totalCount\<close> and \<open>cursor\<close>; leaving it returns
  \<open>Math.max(totalCount, 1)\<close>. The cursor is sent only when it is truthy. A failed request
  throws out of the loop. The owner is whatever \<open>sale.buyer\<close> holds, \<open>undefined\<close> included.
\<close>

function getHolderNFTCount_pages ::
  "'x services \<Rightarrow> string option \<Rightarrow> bool \<Rightarrow> nat \<Rightarrow> string option \<Rightarrow> ('x world, error, nat) action" where
  "getHolderNFTCount_pages sv walletAddress hasMore totalCount cursor w =
     (if hasMore \<and> totalCount < 1000 then
        (case call (get_assets sv walletAddress (if truthy_str cursor then cursor else None))
                (journal_add (AssetsRequest (if truthy_str cursor then cursor else None)) w) of
           (Inl e, w') \<Rightarrow> (Inl e, w')
         | (Inr response, w') \<Rightarrow>
             getHolderNFTCount_pages sv walletAddress
               (truthy_str (next response)
                  \<and> (case assets response of None \<Rightarrow> 0 | Some n \<Rightarrow> n) = 200)
               (totalCount + (case assets response of None \<Rightarrow> 0 | Some n \<Rightarrow> n))
               (next response) w')
      else (Inr (max totalCount 1), w))"
  by pat_completeness auto
termination
  by (relation "measure (\<lambda>(sv, walletAddress, hasMore, totalCount, cursor, w).
        if hasMore then 1001 - totalCount else 0)") auto

declare getHolderNFTCount_pages.simps [simp del]

definition getHolderNFTCount_v1 :: "'x services \<Rightarrow> string option \<Rightarrow> 'x world \<Rightarrow> nat \<times> 'x world" where
  "getHolderNFTCount_v1 sv walletAddress =
     (\<lambda>w. or_default 1
        (apiCallWithRetry (raising (getHolderNFTCount_pages sv walletAddress True 0 None)) 3 RETRY_DELAY w))"

text \<open>\<open>getSellerNFTCount\<close> in bot.js:255: one page, \<open>response.data.assets?.length || 0\<close>.\<close>

definition getSellerNFTCount_v1_call :: "'x services \<Rightarrow> string option \<Rightarrow> ('x world, error, nat) action" where
  "getSellerNFTCount_v1_call sv walletAddress w =
     (case call (get_assets sv walletAddress None) w of
        (Inl e, w') \<Rightarrow> (Inl e, w')
      | (Inr response, w') \<Rightarrow> (Inr (case assets response of None \<Rightarrow> 0 | Some n \<Rightarrow> n), w'))"

definition getSellerNFTCount_v1 :: "'x services \<Rightarrow> string option \<Rightarrow> 'x world \<Rightarrow> nat \<times> 'x world" where
  "getSellerNFTCount_v1 sv walletAddress =
     (\<lambda>w. or_default 0 (apiCallWithRetry (raising (getSellerNFTCount_v1_call sv walletAddress)) 3 RETRY_DELAY w))"

text \<open>\<open>getHolderNFTCount\<close> and \<open>getSellerNFTCount\<close> in bot.js:1074, bot.js:1097,
  part_000:150 and part_000:173: one request, \<open>response.data.nfts || []\<close>, the length
  floored at 1 for the holder.\<close>

definition getHolderNFTCount_v2_call :: "'x services \<Rightarrow> string \<Rightarrow> ('x world, error, nat) action" where
  "getHolderNFTCount_v2_call sv walletAddress w =
     (case call (get_account_nfts sv walletAddress) w of
        (Inl e, w') \<Rightarrow> (Inl e, w')
      | (Inr nfts, w') \<Rightarrow> (Inr (max (case nfts of None \<Rightarrow> 0 | Some n \<Rightarrow> n) 1), w'))"

definition getHolderNFTCount_v2 :: "'x services \<Rightarrow> string \<Rightarrow> 'x world \<Rightarrow> nat \<times> 'x world" where
  "getHolderNFTCount_v2 sv walletAddress =
     (\<lambda>w. or_default 1 (apiCallWithRetry (raising (getHolderNFTCount_v2_call sv walletAddress)) 3 RETRY_DELAY w))"

definition getSellerNFTCount_v2_call :: "'x services \<Rightarrow> string \<Rightarrow> ('x world, error, nat) action" where
  "getSellerNFTCount_v2_call sv walletAddress w =
     (case call (get_account_nfts sv walletAddress) w of
        (Inl e, w') \<Rightarrow> (Inl e, w')
      | (Inr nfts, w') \<Rightarrow> (Inr (case nfts of None \<Rightarrow> 0 | Some n \<Rightarrow> n), w'))"

definition getSellerNFTCount_v2 :: "'x services \<Rightarrow> string \<Rightarrow> 'x world \<Rightarrow> nat \<times> 'x world" where
  "getSellerNFTCount_v2 sv walletAddress =
     (\<lambda>w. or_default 0 (apiCallWithRetry (raising (getSellerNFTCount_v2_call sv walletAddress)) 3 RETRY_DELAY w))"


section \<open>Rendering and publishing\<close>

text \<open>\<open>getFloorPriceNFT\<close> (bot.js:335, bot.js:1177, part_000:253): the first listing, or
  \<open>null\<close> when there is none or the request fails for good. Only the draft in part_000
  fills \<open>seller_address\<close>, and only its \<open>runBot\<close> reads it.\<close>

definition getFloorPriceNFT_call :: "'x services \<Rightarrow> ('x world, error, floorNFT option) action" where
  "getFloorPriceNFT_call sv w =
     (case call (get_listings sv) w of
        (Inl e, w') \<Rightarrow> (Inl e, w')
      | (Inr listings, w') \<Rightarrow>
          (case (case listings of None \<Rightarrow> [] | Some ls \<Rightarrow> ls) of
             [] \<Rightarrow> (Inr None, w')
           | listing # others \<Rightarrow> (Inr (Some listing), w')))"

definition getFloorPriceNFT :: "'x services \<Rightarrow> 'x world \<Rightarrow> floorNFT option \<times> 'x world" where
  "getFloorPriceNFT sv =
     (\<lambda>w. or_default None (apiCallWithRetry (raising (getFloorPriceNFT_call sv)) 3 RETRY_DELAY w))"

text \<open>\<open>getNFTImageUrl\<close> (bot.js:317).\<close>

definition getNFTImageUrl :: "'x services \<Rightarrow> string option \<Rightarrow> 'x world \<Rightarrow> string option \<times> 'x world" where
  "getNFTImageUrl sv tokenId =
     (\<lambda>w. or_default None (apiCallWithRetry (raising (call (get_nft sv tokenId))) 3 RETRY_DELAY w))"

text \<open>
  \<open>createSaleImage\<close> (bot.js:410): \<open>null\<close> without the canvas module; with it, the card is
  drawn from \<open>sale.winner_account.address\<close> and \<open>sale.asset.name\<close>, and reading a property
  of an absent \<open>winner_account\<close> or \<open>asset\<close> throws a \<open>TypeError\<close>. Nothing in the function
  catches it.
\<close>

definition createSaleImage :: "'x services \<Rightarrow> sale \<Rightarrow> error + buffer option" where
  "createSaleImage sv sale =
     (if \<not> canvas sv then Inr None
      else if winner_account sale = None then Inl TypeError
      else if asset sale = None then Inl TypeError
      else Inr (Some SaleCard))"

text \<open>\<open>createFloorAlertImage\<close> (bot.js:515): \<open>null\<close> without the canvas module; with it, the
  card, after an attempt to load the NFT image whose failure is caught.\<close>

definition createFloorAlertImage ::
  "'x services \<Rightarrow> string option \<Rightarrow> 'x world \<Rightarrow> buffer option \<times> 'x world" where
  "createFloorAlertImage sv nftImageUrl w =
     (if \<not> canvas sv then (None, w)
      else (case nftImageUrl of
              None \<Rightarrow> (Some FloorCard, w)
            | Some url \<Rightarrow>
                if url = [] then (Some FloorCard, w)
                else (Some FloorCard, snd (call (get_image sv url) w))))"

text \<open>The inner \<open>try\<close> that downloads and uploads the NFT image (bot.js:783, bot.js:1425,
  part_000:543): the number of media ids it pushes, 0 when the URL is falsy or a step
  fails.\<close>

definition attach_image :: "'x services \<Rightarrow> string option \<Rightarrow> 'x world \<Rightarrow> nat \<times> 'x world" where
  "attach_image sv nftImageUrl w =
     (case nftImageUrl of
        None \<Rightarrow> (0, w)
      | Some url \<Rightarrow>
          if url = [] then (0, w)
          else (case call (get_image sv url) w of
                  (Inl imageError, w') \<Rightarrow> (0, w')
                | (Inr nftImageResponse, w') \<Rightarrow>
                    (case call (uploadMedia sv (Some (Image url))) w' of
                       (Inl imageError, w'') \<Rightarrow> (0, w'')
                     | (Inr nftUpload, w'') \<Rightarrow> (1, w''))))"

text \<open>The tweet with its fallback (bot.js:1333 and 1452, part_000:441 and 563): on a failed
  call that carried media, one more call without media.\<close>

definition tweet_with_fallback :: "'x services \<Rightarrow> tweet_text \<Rightarrow> nat \<Rightarrow> 'x world \<Rightarrow> 'x world" where
  "tweet_with_fallback sv message mediaIds w =
     (case call (tweet sv message mediaIds) w of
        (Inr u, w') \<Rightarrow> journal_add (TweetCall message mediaIds True) w'
      | (Inl tweetError, w') \<Rightarrow>
          (let w'' = journal_add (TweetCall message mediaIds False) w'
           in if mediaIds > 0 then
                (case call (tweet sv message 0) w'' of
                   (Inr u, w3) \<Rightarrow> journal_add (FallbackTweetCall message True) w3
                 | (Inl fallbackError, w3) \<Rightarrow> journal_add (FallbackTweetCall message False) w3)
              else w''))"

text \<open>A \<open>for ... of\<close> loop whose body may throw: the first throw ends the loop.\<close>

fun for_each :: "('a \<Rightarrow> ('s, 'e, unit) action) \<Rightarrow> 'a list \<Rightarrow> ('s, 'e, unit) action" where
  "for_each body [] s = (Inr (), s)"
| "for_each body (x # xs) s =
     (case body x s of
        (Inl e, s') \<Rightarrow> (Inl e, s')
      | (Inr u, s') \<Rightarrow> for_each body xs s')"


section \<open>The pipeline, first draft (bot.js:669)\<close>

text \<open>The body of \<open>if (shouldAlert) { try { ... } catch { } }\<close>. The card is uploaded before
  the tweet; a failure anywhere ends the block.\<close>

definition floorAlert_v1 :: "'x services \<Rightarrow> 'x world \<Rightarrow> 'x world" where
  "floorAlert_v1 sv w =
     (let (floorNFT, w1) = getFloorPriceNFT sv w
      in case floorNFT of
           None \<Rightarrow> w1
         | Some listing \<Rightarrow>
             (let (nftImageUrl, w2) = getNFTImageUrl sv (token_id listing) w1;
                  (floorImage, w3) = createFloorAlertImage sv nftImageUrl w2
              in case call (uploadMedia sv floorImage) w3 of
                   (Inl floorError, w4) \<Rightarrow> w4
                 | (Inr cardUpload, w4) \<Rightarrow>
                     (case call (tweet sv FloorReport 1) w4 of
                        (Inl floorError, w5) \<Rightarrow> journal_add (TweetCall FloorReport 1 False) w5
                      | (Inr u, w5) \<Rightarrow>
                          updateLastFloorAlert sv (journal_add (TweetCall FloorReport 1 True) w5))))"

text \<open>\<open>if (sale.seller) { ... }\<close> with \<open>getSellerNFTCount\<close> of bot.js:255.\<close>

definition resolve_seller_v1 :: "'x services \<Rightarrow> sale \<Rightarrow> 'x world \<Rightarrow> (nat \<times> tier) \<times> 'x world" where
  "resolve_seller_v1 sv sale w =
     (if truthy_str (seller sale)
      then (let (sellerCount, w') = getSellerNFTCount_v1 sv (seller sale) w
            in ((sellerCount, getHolderTier (int sellerCount)), w'))
      else ((0, Unknown), w))"

text \<open>The \<open>try\<close> block that publishes one sale: the card upload, the NFT image, the tweet.
  (The log line after the tweet reads \<open>sale.asset.name\<close>; what it throws is caught by the same
  block and only skips the pacing wait.)\<close>

definition post_v1 ::
  "'x services \<Rightarrow> tweet_text \<Rightarrow> buffer option \<Rightarrow> string option \<Rightarrow> 'x world \<Rightarrow> 'x world" where
  "post_v1 sv message investigationCardBuffer nftImageUrl w =
     (case call (uploadMedia sv investigationCardBuffer) w of
        (Inl twitterError, w1) \<Rightarrow> w1
      | (Inr cardUpload, w1) \<Rightarrow>
          (let (extra, w2) = attach_image sv nftImageUrl w1
           in case call (tweet sv message (1 + extra)) w2 of
                (Inl twitterError, w3) \<Rightarrow> journal_add (TweetCall message (1 + extra) False) w3
              | (Inr u, w3) \<Rightarrow> journal_add (TweetCall message (1 + extra) True) w3))"

text \<open>
  The body of the loop over \<open>salesToProcess\<close>. The log line reads \<open>sale.nft.name\<close> and the
  message reads \<open>sale.buyer.slice\<close>, which throw on an absent \<open>nft\<close> or \<open>buyer\<close>;
  \<open>createSaleImage\<close> is called outside the \<open>try\<close> block, so what it throws leaves the loop.
\<close>

definition processSale_v1 :: "'x services \<Rightarrow> sale \<Rightarrow> ('x world, error, unit) action" where
  "processSale_v1 sv sale w =
     (case nft sale of
        None \<Rightarrow> (Inl TypeError, w)
      | Some payload \<Rightarrow>
          (let w0 = journal_add (Processing sale) w;
               (buyerCount, w1) = getHolderNFTCount_v1 sv (buyer sale) w0;
               buyerTier = getHolderTier (int buyerCount);
               ((sellerCount, sellerTier), w2) = resolve_seller_v1 sv sale w1
           in case buyer sale of
                None \<Rightarrow> (Inl TypeError, w2)
              | Some buyerAddress \<Rightarrow>
                  (let message = SaleReport sale (buyerTier, int buyerCount)
                                   (sellerTier, int sellerCount);
                       (nftImageUrl, w3) = getNFTImageUrl sv (Some (identifier payload)) w2
                   in case createSaleImage sv sale of
                        Inl error \<Rightarrow> (Inl error, w3)
                      | Inr investigationCardBuffer \<Rightarrow>
                          (Inr (), post_v1 sv message investigationCardBuffer nftImageUrl w3))))"

text \<open>From \<open>sales.slice(0, 3)\<close> to the end of \<open>runBot\<close>; a throw out of the loop, or out of
  the final checkpoint write, reaches the outer \<open>catch\<close>, which logs it.\<close>

definition processBatch_v1 :: "'x services \<Rightarrow> sale list \<Rightarrow> 'x world \<Rightarrow> 'x world" where
  "processBatch_v1 sv sales w =
     (let salesToProcess = take 3 sales
      in case for_each (processSale_v1 sv) salesToProcess w of
           (Inl error, w') \<Rightarrow> w'
         | (Inr u, w') \<Rightarrow> snd (updateLastCheckTime_v1 sv w'))"

definition runBot_v1 :: "'x services \<Rightarrow> 'x world \<Rightarrow> 'x world" where
  "runBot_v1 sv w =
     (let (sales, w1) = fetchRecentSales_v1 sv w;
          shouldAlert = shouldPostFloorAlert_v1 sv w1
      in if sales = [] \<and> \<not> shouldAlert then snd (updateLastCheckTime_v1 sv w1)
         else
           (let w2 = (if shouldAlert then floorAlert_v1 sv w1 else w1)
            in if sales = [] then snd (updateLastCheckTime_v1 sv w2)
               else processBatch_v1 sv sales w2))"


section \<open>The pipeline, second draft (bot.js:1279) and part_000 (line 366)\<close>

text \<open>The floor alert of bot.js:1296: no image is attached (\<open>nftImageUrl = null\<close>), so the
  tweet goes out without media; the alert time is stored whether or not the tweet
  succeeded.\<close>

definition floorAlert_v2 :: "'x services \<Rightarrow> 'x world \<Rightarrow> 'x world" where
  "floorAlert_v2 sv w =
     (let (floorNFT, w1) = getFloorPriceNFT sv w
      in case floorNFT of
           None \<Rightarrow> w1
         | Some listing \<Rightarrow> updateLastFloorAlert sv (tweet_with_fallback sv FloorReport 0 w1))"

text \<open>The floor alert of part_000:383: as before, after a look at the seller's holdings
  when the listing names a seller.\<close>

definition floorAlert_v3 :: "'x services \<Rightarrow> 'x world \<Rightarrow> 'x world" where
  "floorAlert_v3 sv w =
     (let (floorNFT, w1) = getFloorPriceNFT sv w
      in case floorNFT of
           None \<Rightarrow> w1
         | Some listing \<Rightarrow>
             (let w2 = (case seller_address listing of
                          None \<Rightarrow> w1
                        | Some address \<Rightarrow>
                            if address = [] then w1
                            else snd (getSellerNFTCount_v2 sv address w1))
              in updateLastFloorAlert sv (tweet_with_fallback sv FloorReport 0 w2)))"

text \<open>\<open>if (sellerAddress) { ... }\<close> with \<open>getSellerNFTCount\<close> of bot.js:1097.\<close>

definition resolve_seller_v2 :: "'x services \<Rightarrow> sale \<Rightarrow> 'x world \<Rightarrow> (nat \<times> tier) \<times> 'x world" where
  "resolve_seller_v2 sv sale w =
     (case seller sale of
        None \<Rightarrow> ((0, Unknown), w)
      | Some sellerAddress \<Rightarrow>
          if sellerAddress = [] then ((0, Unknown), w)
          else (let (sellerCount, w') = getSellerNFTCount_v2 sv sellerAddress w
                in ((sellerCount, getHolderTier (int sellerCount)), w')))"

text \<open>
  The body of the loop in bot.js:1369 and part_000:486 (the two differ in the wording of
  the message only). An event without buyer is skipped by \<open>continue\<close>;
  \<open>sale.nft.identifier\<close> is read outside the \<open>try\<close> block and throws on an absent \<open>nft\<close>.
\<close>

definition processSale_v2 :: "'x services \<Rightarrow> sale \<Rightarrow> ('x world, error, unit) action" where
  "processSale_v2 sv sale w =
     (let w0 = journal_add (Processing sale) w
      in case buyer sale of
           None \<Rightarrow> (Inr (), w0)
         | Some buyerAddress \<Rightarrow>
             if buyerAddress = [] then (Inr (), w0)
             else
               (let (buyerCount, w1) = getHolderNFTCount_v2 sv buyerAddress w0;
                    buyerTier = getHolderTier (int buyerCount);
                    ((sellerCount, sellerTier), w2) = resolve_seller_v2 sv sale w1;
                    message = SaleReport sale (buyerTier, int buyerCount)
                                (sellerTier, int sellerCount)
                in case nft sale of
                     None \<Rightarrow> (Inl TypeError, w2)
                   | Some payload \<Rightarrow>
                       (let (mediaIds, w3) = attach_image sv (image_url payload) w2
                        in (Inr (), tweet_with_fallback sv message mediaIds w3))))"

definition processBatch_v2 :: "'x services \<Rightarrow> sale list \<Rightarrow> 'x world \<Rightarrow> 'x world" where
  "processBatch_v2 sv sales w =
     (let salesToProcess = take 3 sales
      in case for_each (processSale_v2 sv) salesToProcess w of
           (Inl error, w') \<Rightarrow> w'
         | (Inr u, w') \<Rightarrow> snd (updateLastCheckTime_v1 sv w'))"

definition runBot_v2 :: "'x services \<Rightarrow> 'x world \<Rightarrow> 'x world" where
  "runBot_v2 sv w =
     (let (sales, w1) = fetchRecentSales_v2 sv w;
          shouldAlert = shouldPostFloorAlert_v1 sv w1
      in if sales = [] \<and> \<not> shouldAlert then snd (updateLastCheckTime_v1 sv w1)
         else
           (let w2 = (if shouldAlert \<and> sales = [] then floorAlert_v2 sv w1 else w1)
            in if sales = [] then snd (updateLastCheckTime_v1 sv w2)
               else processBatch_v2 sv sales w2))"

definition processBatch_v3 :: "'x services \<Rightarrow> sale list \<Rightarrow> 'x world \<Rightarrow> 'x world" where
  "processBatch_v3 sv sales w =
     (let salesToProcess = take 3 sales
      in case for_each (processSale_v2 sv) salesToProcess w of
           (Inl error, w') \<Rightarrow> w'
         | (Inr u, w') \<Rightarrow> updateLastCheckTime_v3 sv w')"

definition runBot_v3 :: "'x services \<Rightarrow> 'x world \<Rightarrow> 'x world" where
  "runBot_v3 sv w =
     (let (sales, w1) = fetchRecentSales_v3 sv w;
          shouldAlert = shouldPostFloorAlert_v3 sv w1
      in if sales = [] \<and> \<not> shouldAlert then updateLastCheckTime_v3 sv w1
         else
           (let w2 = (if shouldAlert \<and> sales = [] then floorAlert_v3 sv w1 else w1)
            in if sales = [] then updateLastCheckTime_v3 sv w2
               else processBatch_v3 sv sales w2))"

text \<open>Reading a journal: the events the loop started on, the sales for which the tweet
  call was made, and the number of tweet calls carrying the floor report.\<close>

fun processed :: "entry list \<Rightarrow> sale list" where
  "processed [] = []"
| "processed (Processing s # es) = s # processed es"
| "processed (e # es) = processed es"

fun sale_tweet_calls :: "entry list \<Rightarrow> sale list" where
  "sale_tweet_calls [] = []"
| "sale_tweet_calls (TweetCall (SaleReport s b c) n ok # es) = s # sale_tweet_calls es"
| "sale_tweet_calls (e # es) = sale_tweet_calls es"

fun floor_tweet_calls :: "entry list \<Rightarrow> nat" where
  "floor_tweet_calls [] = 0"
| "floor_tweet_calls (TweetCall FloorReport n ok # es) = Suc (floor_tweet_calls es)"
| "floor_tweet_calls (FallbackTweetCall FloorReport ok # es) = Suc (floor_tweet_calls es)"
| "floor_tweet_calls (e # es) = floor_tweet_calls es"


text \<open>The journal without the page requests, and that of a world.\<close>

fun visible :: "entry list \<Rightarrow> entry list" where
  "visible [] = []"
| "visible (AssetsRequest c # es) = visible es"
| "visible (e # es) = e # visible es"

definition vis :: "'x world \<Rightarrow> entry list" where "vis w = visible (journal w)"

text \<open>Page requests in a journal.\<close>

fun assets_requests :: "entry list \<Rightarrow> nat" where
  "assets_requests [] = 0"
| "assets_requests (AssetsRequest c # es) = Suc (assets_requests es)"
| "assets_requests (e # es) = assets_requests es"


section \<open>Concrete worlds\<close>

text \<open>
  Services in which every marketplace request fails, there is no listing, and the image
  download, both Twitter calls and the file write succeed; the clock stands at \<open>now\<close>.
  The scenarios below change one service at a time.
\<close>

definition plain_services :: "int \<Rightarrow> unit services" where
  "plain_services now =
     \<lparr> clock = (\<lambda>x. now),
       canvas = True,
       get_events = (\<lambda>params x. (Inl ApiError, x)),
       get_account_nfts = (\<lambda>address x. (Inl ApiError, x)),
       get_assets = (\<lambda>owner cursor x. (Inl ApiError, x)),
       get_listings = (\<lambda>x. (Inr None, x)),
       get_nft = (\<lambda>tokenId x. (Inr None, x)),
       get_image = (\<lambda>url x. (Inr (), x)),
       uploadMedia = (\<lambda>b x. (Inr (), x)),
       tweet = (\<lambda>text n x. (Inr (), x)),
       writeFile = (\<lambda>data x. (Inr (), x)) \<rparr>"

text \<open>A marketplace that answers every events request, whatever its parameters, with one
  valid sale that occurred at second 1700000000.\<close>

definition stale_feed :: "unit services" where
  "stale_feed = (plain_services 1700003600000)
     \<lparr> get_events := (\<lambda>params x.
          (Inr \<lparr> asset_events = Some [sale_paying (JStr ''1000'') 1700000000],
                 events = None \<rparr>, x)) \<rparr>"

text \<open>A checkpoint file holding both fields; \<open>lastCheck\<close> is second 1700003000.\<close>

definition both_stored :: "unit world" where
  "both_stored =
     \<lparr> remote = (),
       file = Some \<lparr> lastCheck = Some 1700003000000, lastFloorAlert = Some 1700001000000 \<rparr>,
       journal = [] \<rparr>"

text \<open>An assets endpoint whose every page is full and names a next page.\<close>

definition full_pages :: "unit services" where
  "full_pages = (plain_services 1700003600000)
     \<lparr> get_assets := (\<lambda>owner cursor x.
          (Inr \<lparr> assets = Some 200, next = Some ''next-page'' \<rparr>, x)) \<rparr>"

text \<open>An assets endpoint that answers every request with one page of 1500 items and no
  next page.\<close>

definition oversized_page :: "unit services" where
  "oversized_page = (plain_services 1700003600000)
     \<lparr> get_assets := (\<lambda>owner cursor x. (Inr \<lparr> assets = Some 1500, next = None \<rparr>, x)) \<rparr>"


text \<open>
  A marketplace with one valid sale of second 1700003500 in its window and one listing on
  the floor; a checkpoint whose last floor alert is 80 hours before the clock, so that
  both the 20-hour gate of bot.js and the 72-hour gate of part_000 are due; and a
  marketplace whose window holds ten valid sales, none with the fields of the older event
  format.
\<close>

definition busy_market :: "unit services" where
  "busy_market = (plain_services 1700003600000)
     \<lparr> get_events := (\<lambda>params x.
          (Inr \<lparr> asset_events = Some [sale_paying (JStr ''1000'') 1700003500],
                 events = None \<rparr>, x)),
       get_listings := (\<lambda>x. (Inr (Some [\<lparr> token_id = Some ''17'', seller_address = None \<rparr>]), x)) \<rparr>"

definition alert_due :: "unit world" where
  "alert_due =
     \<lparr> remote = (),
       file = Some \<lparr> lastCheck = Some 1700003000000, lastFloorAlert = Some 1699715600000 \<rparr>,
       journal = [] \<rparr>"

definition ten_sales :: "sale list" where
  "ten_sales = map (sale_paying (JStr ''1000''))
     [1700003501, 1700003502, 1700003503, 1700003504, 1700003505,
      1700003506, 1700003507, 1700003508, 1700003509, 1700003510]"

definition ten_sales_market :: "unit services" where
  "ten_sales_market = (plain_services 1700003600000)
     \<lparr> get_events := (\<lambda>params x. (Inr \<lparr> asset_events = Some ten_sales, events = None \<rparr>, x)) \<rparr>"


section \<open>Properties of the classifiers\<close>

lemma statusTemplates_inj: "statusTemplates a = statusTemplates b \<longleftrightarrow> a = b"
  by (cases a; cases b) simp_all

text \<open>
  Claim C1. With \<open>\<Delta> = rank(seller) - rank(buyer)\<close>, the narrative classifier answers
  empire_falls exactly when \<open>\<Delta> > 1\<close>, consolidation exactly when \<open>\<Delta> < -1\<close> and
  business_as_usual exactly when \<open>|\<Delta>| \<le> 1\<close>; this holds for \<open>getTransactionStory\<close> and,
  through the status texts, for \<open>getTransactionStatus\<close>. An associate (rank 1) buying from a
  caporegime (rank 3) gives empire_falls, a caporegime buying from a soldier (rank 2) gives
  business_as_usual.
\<close>

theorem narrative_by_rank_difference:
  "(getTransactionStory b s bc sc = Empire_falls \<longleftrightarrow> getTierRank s - getTierRank b > 1)
   \<and> (getTransactionStory b s bc sc = Consolidation \<longleftrightarrow> getTierRank s - getTierRank b < - 1)
   \<and> (getTransactionStory b s bc sc = Business_as_usual
        \<longleftrightarrow> \<bar>getTierRank s - getTierRank b\<bar> \<le> 1)
   \<and> (getTransactionStatus b s = statusTemplates Empire_falls
        \<longleftrightarrow> getTierRank s - getTierRank b > 1)
   \<and> (getTransactionStatus b s = statusTemplates Consolidation
        \<longleftrightarrow> getTierRank s - getTierRank b < - 1)
   \<and> (getTransactionStatus b s = statusTemplates Business_as_usual
        \<longleftrightarrow> \<bar>getTierRank s - getTierRank b\<bar> \<le> 1)
   \<and> getTierRank Associate = 1 \<and> getTierRank Soldier = 2 \<and> getTierRank Caporegime = 3
   \<and> getTransactionStory Associate Caporegime bc sc = Empire_falls
   \<and> getTransactionStory Caporegime Soldier bc sc = Business_as_usual
   \<and> getTransactionStatus Associate Caporegime = statusTemplates Empire_falls
   \<and> getTransactionStatus Caporegime Soldier = statusTemplates Business_as_usual"
proof -
  have story: "getTransactionStory b s bc sc =
      (if getTierRank s - getTierRank b > 1 then Empire_falls
       else if getTierRank s - getTierRank b < - 1 then Consolidation
       else Business_as_usual)" for b s bc sc
    by (simp add: getTransactionStory_def Let_def)
  have status: "getTransactionStatus b s = statusTemplates (getTransactionStory b s bc sc)"
    for b s
    by (simp add: getTransactionStatus_def getTransactionStory_def Let_def)
  have r: "getTierRank Associate = 1" "getTierRank Soldier = 2" "getTierRank Caporegime = 3"
    by (simp_all add: getTierRank_def)
  have s1: "getTransactionStory b s bc sc = Empire_falls
      \<longleftrightarrow> getTierRank s - getTierRank b > 1"
    and s2: "getTransactionStory b s bc sc = Consolidation
      \<longleftrightarrow> getTierRank s - getTierRank b < - 1"
    and s3: "getTransactionStory b s bc sc = Business_as_usual
      \<longleftrightarrow> \<bar>getTierRank s - getTierRank b\<bar> \<le> 1"
    by (auto simp add: story)
  have e1: "getTransactionStory Associate Caporegime bc sc = Empire_falls"
    and e2: "getTransactionStory Caporegime Soldier bc sc = Business_as_usual"
    by (simp_all add: story r)
  show ?thesis
    unfolding status [of b s] status [of Associate Caporegime] status [of Caporegime Soldier]
      statusTemplates_inj
    using s1 s2 s3 e1 e2 r by simp
qed

text \<open>
  Claim C2. \<open>getHolderTier\<close> is defined on every integer count and answers one of the seven
  tiers of the table, whose ranks are 1 to 7 in table order. No tier whose threshold the
  count meets has a higher rank than the answer, and from count 0 on the answer's own
  threshold is met: the answer is the highest tier whose threshold is at most the count.
  Every count at or below 0 gives associate, every count of 100 or more gives commission.
\<close>

theorem getHolderTier_highest_met_threshold:
  "getHolderTier c \<in> fst ` set tier_thresholds
   \<and> map (getTierRank \<circ> fst) tier_thresholds = [1, 2, 3, 4, 5, 6, 7]
   \<and> (\<forall>(t, th) \<in> set tier_thresholds. th \<le> c \<longrightarrow> getTierRank t \<le> getTierRank (getHolderTier c))
   \<and> (0 \<le> c \<longrightarrow> (\<exists>th. (getHolderTier c, th) \<in> set tier_thresholds \<and> th \<le> c))
   \<and> (c \<le> 0 \<longrightarrow> getHolderTier c = Associate)
   \<and> (100 \<le> c \<longrightarrow> getHolderTier c = Commission)"
  by (simp add: getHolderTier_def tier_thresholds_def getTierRank_def)

theorem getHolderTier_highest_met_threshold_witness:
  "getHolderTier 12 = Caporegime
   \<and> (Soldier, 5) \<in> set tier_thresholds \<and> (5::int) \<le> 12
   \<and> getTierRank Soldier \<le> getTierRank (getHolderTier 12)
   \<and> (\<exists>th. (getHolderTier 12, th) \<in> set tier_thresholds \<and> th \<le> 12)
   \<and> getHolderTier 0 = Associate \<and> getHolderTier 100 = Commission"
  using getHolderTier_highest_met_threshold [of 12]
    getHolderTier_highest_met_threshold [of 0]
    getHolderTier_highest_met_threshold [of 100]
  by (simp add: getHolderTier_def tier_thresholds_def)


section \<open>Properties of the retry executor\<close>

lemma invocations_append: "invocations (xs @ ys) = invocations xs @ invocations ys"
  by (induction xs rule: invocations.induct) simp_all

lemma waits_append: "waits (xs @ ys) = waits xs @ waits ys"
  by (induction xs rule: waits.induct) simp_all

lemma backoff_trace_last: "backoff_trace delay n n = [Invoked n]"
  by (simp add: backoff_trace_def)

lemma backoff_trace_step:
  "a < n \<Longrightarrow> backoff_trace delay a n =
     Invoked a # Waited (delay * 2 ^ nat (a - 1)) # backoff_trace delay (a + 1) n"
  by (simp add: backoff_trace_def upto_rec1)

lemma world_after_step:
  "world_after apiCall (Suc k) s = world_after apiCall k (snd (apiCall s))"
  by (simp add: world_after_def funpow_swap1)

lemma retry_always_failing:
  assumes fails: "\<forall>s. \<exists>e. fst (apiCall s) = Inl (Raised e)"
  shows "a \<le> n \<Longrightarrow> k = nat (n - a) \<Longrightarrow>
     apiCallWithRetry_from apiCall n delay a s tr =
       (Threw (the_raised (projl (fst (apiCall (world_after apiCall k s))))),
        world_after apiCall (Suc k) s,
        tr @ backoff_trace delay a n)"
proof (induction k arbitrary: a s tr)
  case 0
  then have an: "a = n" by simp
  obtain e s' where c: "apiCall s = (Inl (Raised e), s')"
    using fails [rule_format, of s] by (cases "apiCall s") auto
  show ?case
    by (simp add: apiCallWithRetry_from.simps [of apiCall n delay n] an c
        world_after_def backoff_trace_last)
next
  case (Suc k)
  then have lt: "a < n" and k: "k = nat (n - (a + 1))" by simp_all
  obtain e s' where c: "apiCall s = (Inl (Raised e), s')"
    using fails [rule_format, of s] by (cases "apiCall s") auto
  have s': "snd (apiCall s) = s'" by (simp add: c)
  from lt have le: "a + 1 \<le> n" by simp
  show ?case
    using lt
    by (simp add: apiCallWithRetry_from.simps [of apiCall n delay a] c
        Suc.IH [OF le k] world_after_step [of apiCall "Suc k"] world_after_step [of apiCall k]
        s' backoff_trace_step [OF lt])
qed

lemma invocations_backoff:
  "a \<le> n \<Longrightarrow> k = nat (n - a) \<Longrightarrow> invocations (backoff_trace delay a n) = [a..n]"
proof (induction k arbitrary: a)
  case 0
  then show ?case by (simp add: backoff_trace_last)
next
  case (Suc k)
  then have lt: "a < n" and k: "k = nat (n - (a + 1))" by simp_all
  from lt have le: "a + 1 \<le> n" by simp
  show ?case
    using lt by (simp add: backoff_trace_step [OF lt] Suc.IH [OF le k] upto_rec1 [of a n])
qed

lemma waits_backoff:
  "a \<le> n \<Longrightarrow> k = nat (n - a) \<Longrightarrow>
     waits (backoff_trace delay a n) = map (\<lambda>k. delay * 2 ^ nat (k - 1)) [a..n - 1]"
proof (induction k arbitrary: a)
  case 0
  then show ?case by (simp add: backoff_trace_last)
next
  case (Suc k)
  then have lt: "a < n" and k: "k = nat (n - (a + 1))" by simp_all
  from lt have le: "a + 1 \<le> n" by simp
  show ?case
    using lt
    by (simp add: backoff_trace_step [OF lt] Suc.IH [OF le k] upto_rec1 [of a "n - 1"])
qed

text \<open>
  Claim C3, as stated: every action that fails on every invocation is invoked \<open>maxRetries\<close>
  times. The \<open>catch\<close> block reads \<open>error.message\<close> before it looks at the attempt number
  (bot.js:44): an action that rejects with \<open>null\<close> or \<open>undefined\<close> makes that read throw a
  \<open>TypeError\<close>. With \<open>maxRetries = 3\<close> such an action is invoked once, nothing is awaited, and
  what reaches the caller is the \<open>TypeError\<close>, not the action's rejection. The world of the
  action counts its invocations.
\<close>

theorem apiCallWithRetry_nullish_rejection_one_attempt:
  "apiCallWithRetry (\<lambda>s::nat. (Inl Nullish :: unit thrown + unit, Suc s)) 3 RETRY_DELAY 0
     = (ThrewTypeError, 1, [Invoked 1])
   \<and> invocations (snd (snd (apiCallWithRetry
         (\<lambda>s::nat. (Inl Nullish :: unit thrown + unit, Suc s)) 3 RETRY_DELAY 0))) = [1]
   \<and> waits (snd (snd (apiCallWithRetry
         (\<lambda>s::nat. (Inl Nullish :: unit thrown + unit, Suc s)) 3 RETRY_DELAY 0))) = []"
  by (simp add: apiCallWithRetry_def apiCallWithRetry_from.simps)

text \<open>
  Claim C3, amended. When every invocation of the action fails with a rejection other than
  \<open>null\<close> and \<open>undefined\<close>, and \<open>maxRetries \<ge> 1\<close>, the executor throws, and what it throws is
  the rejection of the last invocation. Its trace is attempt 1, a wait of \<open>delay * 2^0\<close>,
  attempt 2, a wait of \<open>delay * 2^1\<close>, and so on up to attempt \<open>maxRetries\<close>, after which
  nothing is awaited: the action is invoked exactly \<open>maxRetries\<close> times, and the wait before
  re-attempt \<open>k + 1\<close> is \<open>delay * 2^(k - 1)\<close>.
\<close>

theorem apiCallWithRetry_exhausts_attempts:
  assumes "\<forall>s. \<exists>e. fst (apiCall s) = Inl (Raised e)" and "1 \<le> maxRetries"
  shows "apiCallWithRetry apiCall maxRetries delay s =
           (Threw (the_raised (projl (fst (apiCall (world_after apiCall (nat maxRetries - 1) s))))),
            world_after apiCall (nat maxRetries) s,
            backoff_trace delay 1 maxRetries)
         \<and> invocations (backoff_trace delay 1 maxRetries) = [1..maxRetries]
         \<and> length (invocations (backoff_trace delay 1 maxRetries)) = nat maxRetries
         \<and> waits (backoff_trace delay 1 maxRetries)
             = map (\<lambda>k. delay * 2 ^ nat (k - 1)) [1..maxRetries - 1]"
proof -
  have k: "nat maxRetries - 1 = nat (maxRetries - 1)" by simp
  have S: "Suc (nat (maxRetries - 1)) = nat maxRetries" using assms(2) by simp
  have run: "apiCallWithRetry apiCall maxRetries delay s =
           (Threw (the_raised (projl (fst (apiCall (world_after apiCall (nat maxRetries - 1) s))))),
            world_after apiCall (nat maxRetries) s,
            backoff_trace delay 1 maxRetries)"
    unfolding apiCallWithRetry_def k
    using retry_always_failing [OF assms(1) assms(2) refl, of delay s "[]"]
    by (simp add: S)
  have inv: "invocations (backoff_trace delay 1 maxRetries) = [1..maxRetries]"
    by (rule invocations_backoff [OF assms(2) refl])
  have len: "length (invocations (backoff_trace delay 1 maxRetries)) = nat maxRetries"
    by (simp add: inv)
  have w: "waits (backoff_trace delay 1 maxRetries)
             = map (\<lambda>k. delay * 2 ^ nat (k - 1)) [1..maxRetries - 1]"
    by (rule waits_backoff [OF assms(2) refl])
  from run inv len w show ?thesis by simp
qed

theorem apiCallWithRetry_exhausts_attempts_witness:
  "(\<forall>s::nat. \<exists>e. fst (Inl (Raised s) :: nat thrown + unit, Suc s) = Inl (Raised e))
   \<and> (1::int) \<le> 3
   \<and> apiCallWithRetry (\<lambda>s::nat. (Inl (Raised s) :: nat thrown + unit, Suc s)) 3 RETRY_DELAY 0
       = (Threw 2, 3, [Invoked 1, Waited 2000, Invoked 2, Waited 4000, Invoked 3])"
  using apiCallWithRetry_exhausts_attempts
          [of "\<lambda>s::nat. (Inl (Raised s) :: nat thrown + unit, Suc s)" 3 RETRY_DELAY 0]
  by (simp add: world_after_def backoff_trace_def RETRY_DELAY_def upto_rec1 numeral_3_eq_3)

text \<open>
  Claim C9. With \<open>maxRetries \<le> 0\<close> the loop body never runs: the executor returns
  \<open>undefined\<close>, the action is not invoked (the world is untouched and the trace is
  empty) and nothing is thrown.
\<close>

theorem apiCallWithRetry_no_attempts:
  "maxRetries \<le> 0 \<Longrightarrow>
     apiCallWithRetry apiCall maxRetries delay s = (ReturnedUndefined, s, [])"
  by (simp add: apiCallWithRetry_def apiCallWithRetry_from.simps [of apiCall maxRetries])

theorem apiCallWithRetry_no_attempts_witness:
  "(0::int) \<le> 0
   \<and> apiCallWithRetry (\<lambda>s::nat. (Inr s :: unit thrown + nat, Suc s)) 0 RETRY_DELAY 5
       = (ReturnedUndefined, 5, [])"
  using apiCallWithRetry_no_attempts [of 0 "\<lambda>s::nat. (Inr s :: unit thrown + nat, Suc s)" RETRY_DELAY 5]
  by simp


section \<open>Properties of event validation\<close>

lemma isValidSaleEvent_iff:
  "isValidSaleEvent sale \<longleftrightarrow>
     event_type sale = ''sale''
     \<and> nft sale \<noteq> None \<and> truthy_str (buyer sale)
     \<and> (case sale.quantity sale of None \<Rightarrow> True | Some q \<Rightarrow> q \<le> 1)
     \<and> (case payment sale of None \<Rightarrow> False | Some p \<Rightarrow> truthy (payment.quantity p))"
  by (auto simp add: isValidSaleEvent_def split: option.splits)

lemma isValidSaleEvent_rejects_number_zero:
  "payment sale = Some p \<Longrightarrow> payment.quantity p = JNum 0 \<Longrightarrow> \<not> isValidSaleEvent sale"
  by (simp add: isValidSaleEvent_iff)

text \<open>
  Claim C7. The claim has validation reject every event whose payment amount is zero.
  The amount arrives as a string, and the test \<open>!sale.payment.quantity\<close> is a truthiness test:
  the amount \<open>"0"\<close> is a non-empty string, so a single-item sale with kind, payload and buyer
  in order and the amount \<open>"0"\<close> is accepted, although \<open>formatPrice\<close> treats that very amount
  as no price.
\<close>

theorem isValidSaleEvent_accepts_zero_amount:
  "isValidSaleEvent (sale_paying (JStr ''0'') 1700000000)
   \<and> payment (sale_paying (JStr ''0'') 1700000000) = Some \<lparr> payment.quantity = JStr ''0'' \<rparr>
   \<and> price_undisclosed (payment (sale_paying (JStr ''0'') 1700000000))"
  by (simp add: isValidSaleEvent_def sale_paying_def price_undisclosed_def)

theorem isValidSaleEvent_accepts_zero_amount_witness:
  "isValidSaleEvent (sale_paying (JStr ''0'') 1700000000)"
  using isValidSaleEvent_accepts_zero_amount by simp


section \<open>General facts about the retry executor and the world\<close>

lemma retry_rule:
  "(\<And>s r s'. I s \<Longrightarrow> f s = (r, s') \<Longrightarrow> I s' \<and> (\<forall>a. r = Inr a \<longrightarrow> Q a)) \<Longrightarrow> I s \<Longrightarrow>
    (case apiCallWithRetry_from f n d a s tr of
       (Returned r, s', tr') \<Rightarrow> Q r \<and> I s'
     | (Threw e, s', tr') \<Rightarrow> I s'
     | (ThrewTypeError, s', tr') \<Rightarrow> I s'
     | (ReturnedUndefined, s', tr') \<Rightarrow> I s')"
proof (induction f n d a s tr rule: apiCallWithRetry_from.induct)
  case (1 apiCall maxRetries delay attempt s tr)
  note step = "1.prems"(1) and Is = "1.prems"(2)
  show ?case
  proof (cases "attempt \<le> maxRetries")
    case False
    then show ?thesis
      using Is by (simp add: apiCallWithRetry_from.simps [of apiCall maxRetries delay attempt])
  next
    case le: True
    obtain r s' where c: "apiCall s = (r, s')" by (cases "apiCall s")
    from step [OF Is c] have I': "I s'" and Q: "\<forall>a. r = Inr a \<longrightarrow> Q a" by simp_all
    show ?thesis
    proof (cases r)
      case (Inr a)
      then show ?thesis
        using le c I' Q
        by (simp add: apiCallWithRetry_from.simps [of apiCall maxRetries delay attempt])
    next
      case Inl: (Inl e)
      show ?thesis
      proof (cases e)
        case Nullish
        then show ?thesis
          using le c I' Inl
          by (simp add: apiCallWithRetry_from.simps [of apiCall maxRetries delay attempt])
      next
        case Raised: (Raised x)
        show ?thesis
        proof (cases "attempt = maxRetries")
          case True
          then show ?thesis
            using le c I' Inl Raised
            by (simp add: apiCallWithRetry_from.simps [of apiCall maxRetries delay maxRetries])
        next
          case False
          have "case apiCallWithRetry_from apiCall maxRetries delay (attempt + 1) s'
                   (tr @ [Invoked attempt, Waited (delay * 2 ^ nat (attempt - 1))]) of
                 (Returned r, s', tr') \<Rightarrow> Q r \<and> I s'
               | (Threw e, s', tr') \<Rightarrow> I s'
               | (ThrewTypeError, s', tr') \<Rightarrow> I s'
               | (ReturnedUndefined, s', tr') \<Rightarrow> I s'"
            using "1.IH" [OF le c [symmetric] Inl Raised False step I'] .
          then show ?thesis
            using le c Inl Raised False
            by (simp add: apiCallWithRetry_from.simps [of apiCall maxRetries delay attempt])
        qed
      qed
    qed
  qed
qed

lemma raisingD:
  "raising f s = (r, s') \<Longrightarrow> \<exists>r0. f s = (r0, s') \<and> (\<forall>a. (r = Inr a) = (r0 = Inr a))"
  by (auto simp add: raising_def split: prod.splits sum.splits)

lemma or_default_thrown:
  assumes step: "\<And>s r s'. I s \<Longrightarrow> f s = (r, s') \<Longrightarrow> I s' \<and> (\<forall>a. r = Inr a \<longrightarrow> Q a)"
    and "I s" and "Q d"
  shows "Q (fst (or_default d (apiCallWithRetry f n dl s)))
       \<and> I (snd (or_default d (apiCallWithRetry f n dl s)))"
  using retry_rule [of I f Q s n dl 1 "[]", OF step assms(2)] assms(3)
  by (auto simp add: apiCallWithRetry_def or_default_def split: prod.splits outcome.splits)

lemma or_default_retry:
  assumes step: "\<And>s r s'. I s \<Longrightarrow> f s = (r, s') \<Longrightarrow> I s' \<and> (\<forall>a. r = Inr a \<longrightarrow> Q a)"
    and "I s" and "Q d"
  shows "Q (fst (or_default d (apiCallWithRetry (raising f) n dl s)))
       \<and> I (snd (or_default d (apiCallWithRetry (raising f) n dl s)))"
proof (rule or_default_thrown [where I = I and Q = Q])
  fix s r s'
  assume "I s" and "raising f s = (r, s')"
  then show "I s' \<and> (\<forall>a. r = Inr a \<longrightarrow> Q a)"
    using step raisingD [of f s r s'] by blast
qed (rule assms(2), rule assms(3))

lemma apiCallWithRetry_defined_from:
  "a \<le> n \<Longrightarrow> fst (apiCallWithRetry_from f n d a s tr) \<noteq> ReturnedUndefined"
proof (induction f n d a s tr rule: apiCallWithRetry_from.induct)
  case (1 apiCall maxRetries delay attempt s tr)
  obtain r s' where c: "apiCall s = (r, s')" by (cases "apiCall s")
  show ?case
  proof (cases r)
    case (Inr a)
    then show ?thesis using "1.prems" c
      by (simp add: apiCallWithRetry_from.simps [of apiCall maxRetries delay attempt])
  next
    case Inl: (Inl e)
    show ?thesis
    proof (cases e)
      case Nullish
      then show ?thesis using "1.prems" c Inl
        by (simp add: apiCallWithRetry_from.simps [of apiCall maxRetries delay attempt])
    next
      case Raised: (Raised x)
      show ?thesis
      proof (cases "attempt = maxRetries")
        case True
        then show ?thesis using "1.prems" c Inl Raised
          by (simp add: apiCallWithRetry_from.simps [of apiCall maxRetries delay maxRetries])
      next
        case False
        with "1.prems" have "attempt + 1 \<le> maxRetries" by simp
        from "1.IH" [OF "1.prems" c [symmetric] Inl Raised False this] show ?thesis
          using "1.prems" c Inl Raised False
          by (simp add: apiCallWithRetry_from.simps [of apiCall maxRetries delay attempt])
      qed
    qed
  qed
qed

lemma apiCallWithRetry_defined: "1 \<le> n \<Longrightarrow> fst (apiCallWithRetry f n d s) \<noteq> ReturnedUndefined"
  by (simp add: apiCallWithRetry_def apiCallWithRetry_defined_from)

lemma call_file [simp]: "file (snd (call f w)) = file w"
  by (simp add: call_def split: prod.splits)

lemma call_journal [simp]: "journal (snd (call f w)) = journal w"
  by (simp add: call_def split: prod.splits)


lemma write_checkpoint_file:
  "file (snd (write_checkpoint sv data w)) =
     (if isl (fst (write_checkpoint sv data w)) then file w else Some data)"
  by (simp add: write_checkpoint_def call_def split: prod.splits sum.splits)


section \<open>Properties of the checkpoint store\<close>

text \<open>The writes that read the stored object first keep the field they do not set, whether
  the write succeeds or fails.\<close>

lemma merging_writes_keep_other_field:
  "stored_lastFloorAlert (updateLastCheckTime_v3 sv w) = stored_lastFloorAlert w
   \<and> stored_lastCheck (updateLastFloorAlert sv w) = stored_lastCheck w"
  by (simp add: stored_lastFloorAlert_def stored_lastCheck_def updateLastCheckTime_v3_def
      updateLastFloorAlert_def write_checkpoint_file Let_def split: option.splits)

text \<open>
  Claim C5. A write of \<open>lastCheck\<close> is to leave the stored \<open>lastFloorAlert\<close> as it was.
  \<open>updateLastCheckTime\<close> of bot.js (lines 661 and 1271) builds a fresh object with
  \<open>lastCheck\<close> alone and writes it over the file: from a file holding both fields, a
  successful write leaves \<open>lastFloorAlert\<close> absent. (The version in part_000 and
  \<open>updateLastFloorAlert\<close> merge, see \<open>merging_writes_keep_other_field\<close>.)
\<close>

theorem updateLastCheckTime_v1_drops_lastFloorAlert:
  "stored_lastFloorAlert both_stored = Some 1700001000000
   \<and> fst (updateLastCheckTime_v1 (plain_services 1700003600000) both_stored) = Inr ()
   \<and> stored_lastFloorAlert
        (snd (updateLastCheckTime_v1 (plain_services 1700003600000) both_stored)) = None
   \<and> stored_lastCheck
        (snd (updateLastCheckTime_v1 (plain_services 1700003600000) both_stored))
        = Some 1700003600000"
  by (simp add: stored_lastFloorAlert_def stored_lastCheck_def updateLastCheckTime_v1_def
      both_stored_def plain_services_def write_checkpoint_def call_def)

theorem updateLastCheckTime_v1_drops_lastFloorAlert_witness:
  "stored_lastFloorAlert
     (snd (updateLastCheckTime_v1 (plain_services 1700003600000) both_stored)) = None"
  using updateLastCheckTime_v1_drops_lastFloorAlert by simp


section \<open>Properties of the event fetcher\<close>

lemma fetchRecentSales_v3_call_newer:
  assumes "file s = Some c" and "fetchRecentSales_v3_call sv s = (r, s')"
  shows "file s' = Some c \<and>
    (\<forall>a. r = Inr a \<longrightarrow> (\<forall>e \<in> set a. js_gt (event_timestamp e) (seconds_of (lastCheck c)) \<and> isValidSaleEvent e))"
proof -
  obtain r0 s0 where c0: "call (get_events sv \<lparr>occurred_after = None, limit = 50\<rparr>) s = (r0, s0)"
    by (cases "call (get_events sv \<lparr>occurred_after = None, limit = 50\<rparr>) s")
  have f0: "file s0 = Some c"
    using call_file [of "get_events sv \<lparr>occurred_after = None, limit = 50\<rparr>" s] c0 assms(1) by simp
  show ?thesis
    using assms c0 f0
    by (auto simp add: fetchRecentSales_v3_call_def getLastCheckTime_def Let_def split: sum.splits if_splits)
qed

lemma fetchRecentSales_v3_only_newer:
  assumes "file w = Some c" and "e \<in> set (fst (fetchRecentSales_v3 sv w))"
  shows "js_gt (event_timestamp e) (seconds_of (lastCheck c)) \<and> isValidSaleEvent e"
proof -
  let ?Q = "\<lambda>a. \<forall>e \<in> set a. js_gt (event_timestamp e) (seconds_of (lastCheck c)) \<and> isValidSaleEvent e"
  have "?Q (fst (or_default [] (apiCallWithRetry (raising (fetchRecentSales_v3_call sv)) 3 RETRY_DELAY w)))
     \<and> file (snd (or_default [] (apiCallWithRetry (raising (fetchRecentSales_v3_call sv)) 3 RETRY_DELAY w))) = Some c"
  proof (rule or_default_retry [where I = "\<lambda>s. file s = Some c" and Q = ?Q])
    show "file w = Some c" by (rule assms(1))
    show "?Q []" by simp
    show "file s' = Some c \<and> (\<forall>a. r = Inr a \<longrightarrow> ?Q a)"
      if "file s = Some c" and "fetchRecentSales_v3_call sv s = (r, s')" for s r s'
      using fetchRecentSales_v3_call_newer [OF that] .
  qed
  then show ?thesis using assms(2) by (simp add: fetchRecentSales_v3_def)
qed

lemma js_gt_iff: "js_gt a (seconds_of b) \<longleftrightarrow> (\<exists>t c. a = Some t \<and> b = Some c \<and> t > c div 1000)"
  by (cases a; cases b) (simp_all add: seconds_of_def)


text \<open>
  Claim C4. \<open>fetchRecentSales\<close> is to return only events that occurred after the
  checkpoint, filtering the fetched window itself. With the checkpoint at second
  1700003000 and a marketplace that answers with a valid sale of second 1700000000
  whatever it is asked, the draft at bot.js:187 (which never reads the checkpoint) and
  the draft at bot.js:1043 (which sends the checkpoint as \<open>occurred_after\<close> and keeps what
  comes back) both return that older sale; the draft in part_000 returns nothing (and in
  general only newer events, see \<open>fetchRecentSales_v3_only_newer\<close>).
\<close>

theorem fetchRecentSales_v1_v2_return_older_event:
  "getLastCheckTime stale_feed both_stored = Some 1700003000000
   \<and> seconds_of (Some 1700003000000) = Num 1700003000
   \<and> event_timestamp (sale_paying (JStr ''1000'') 1700000000) = Some 1700000000
   \<and> fst (fetchRecentSales_v1 stale_feed both_stored) = [sale_paying (JStr ''1000'') 1700000000]
   \<and> fst (fetchRecentSales_v2 stale_feed both_stored) = [sale_paying (JStr ''1000'') 1700000000]
   \<and> fst (fetchRecentSales_v3 stale_feed both_stored) = []"
  by (simp add: getLastCheckTime_def seconds_of_def
      fetchRecentSales_v1_def fetchRecentSales_v2_def fetchRecentSales_v3_def
      fetchRecentSales_v1_call_def fetchRecentSales_v2_call_def fetchRecentSales_v3_call_def
      or_default_def apiCallWithRetry_def apiCallWithRetry_from.simps raising_def call_def
      stale_feed_def plain_services_def both_stored_def
      response_events_def isValidSaleEvent_def sale_paying_def Let_def)

theorem fetchRecentSales_v1_v2_return_older_event_witness:
  "fst (fetchRecentSales_v1 stale_feed both_stored) = [sale_paying (JStr ''1000'') 1700000000]
   \<and> fst (fetchRecentSales_v2 stale_feed both_stored) = [sale_paying (JStr ''1000'') 1700000000]"
  using fetchRecentSales_v1_v2_return_older_event by simp


section \<open>Properties of the account rank resolver\<close>

lemma assets_requests_append: "assets_requests (xs @ ys) = assets_requests xs + assets_requests ys"
  by (induction xs rule: assets_requests.induct) simp_all

lemma journal_add_journal [simp]: "journal (journal_add e w) = journal w @ [e]"
  by (simp add: journal_add_def)

lemma pages_stop:
  "\<not> (hasMore \<and> count < 1000) \<Longrightarrow>
     getHolderNFTCount_pages sv a hasMore count cursor w = (Inr (max count 1), w)"
  by (auto simp add: getHolderNFTCount_pages.simps [of sv a hasMore count cursor w])

lemma pages_step:
  assumes "hasMore" and "count < 1000"
    and "c = (if truthy_str cursor then cursor else None)"
    and "call (get_assets sv a c) (journal_add (AssetsRequest c) w) = (r0, w0)"
  shows "getHolderNFTCount_pages sv a hasMore count cursor w =
     (case r0 of
        Inl e \<Rightarrow> (Inl e, w0)
      | Inr response \<Rightarrow>
          getHolderNFTCount_pages sv a
            (truthy_str (next response) \<and> (case assets response of None \<Rightarrow> 0 | Some n \<Rightarrow> n) = 200)
            (count + (case assets response of None \<Rightarrow> 0 | Some n \<Rightarrow> n)) (next response) w0)"
  using assms
  by (simp add: getHolderNFTCount_pages.simps [of sv a hasMore count cursor w]
      getHolderNFTCount_pages.simps [of sv a True count cursor w] split: sum.splits)

lemma div_step: "t < 1000 \<Longrightarrow> Suc ((999 - t) div 200) \<le> (1199 - t) div 200" for t :: nat
proof -
  assume "t < 1000"
  then have e: "1199 - t = (999 - t) + 200" by arith
  show ?thesis unfolding e by simp
qed

lemma pages_requests:
  "assets_requests (journal (snd (getHolderNFTCount_pages sv a hasMore count cursor w)))
     \<le> assets_requests (journal w) + (if hasMore then (1199 - count) div 200 else 0)"
proof (induction sv a hasMore count cursor w rule: getHolderNFTCount_pages.induct)
  case (1 sv walletAddress hasMore totalCount cursor w)
  define c where "c = (if truthy_str cursor then cursor else None)"
  define w1 where "w1 = journal_add (AssetsRequest c) w"
  show ?case
  proof (cases "hasMore \<and> totalCount < 1000")
    case False
    then show ?thesis by (simp add: pages_stop)
  next
    case go: True
    obtain r w' where call: "call (get_assets sv walletAddress c) w1 = (r, w')"
      by (cases "call (get_assets sv walletAddress c) w1")
    have "journal w' = journal w1"
      using call_journal [of "get_assets sv walletAddress c" w1] by (simp add: call)
    then have j: "journal w' = journal w @ [AssetsRequest c]"
      by (simp add: w1_def)
    have one: "Suc 0 \<le> (1199 - totalCount) div 200"
      using div_step [of totalCount] go by simp
    note unfold = pages_step [OF conjunct1 [OF go] conjunct2 [OF go] c_def call [unfolded w1_def]]
    show ?thesis
    proof (cases r)
      case (Inl e)
      then show ?thesis
        unfolding unfold using go j one by (simp add: assets_requests_append)
    next
      case (Inr response)
      let ?n = "case assets response of None \<Rightarrow> 0 | Some n \<Rightarrow> n"
      let ?h = "truthy_str (next response) \<and> ?n = 200"
      have IH: "assets_requests (journal (snd (getHolderNFTCount_pages sv walletAddress ?h
                   (totalCount + ?n) (next response) w')))
             \<le> assets_requests (journal w') + (if ?h then (1199 - (totalCount + ?n)) div 200 else 0)"
        using "1.IH" [OF go call [unfolded w1_def c_def, symmetric] Inr] .
      have step: "Suc (if ?h then (1199 - (totalCount + ?n)) div 200 else 0)
                    \<le> (1199 - totalCount) div 200"
      proof (cases ?h)
        case False
        then have "(if ?h then (1199 - (totalCount + ?n)) div 200 else 0) = 0" by auto
        then show ?thesis using one by simp
      next
        case True
        then have n: "?n = 200" by simp
        have "(if ?h then (1199 - (totalCount + ?n)) div 200 else 0) = (999 - totalCount) div 200"
          using True n by auto
        then show ?thesis using div_step [of totalCount] go by simp
      qed
      show ?thesis
        unfolding unfold using go Inr IH step j by (simp add: assets_requests_append)
    qed
  qed
qed

lemma pages_bounds:
  "(\<forall>owner cursor x. case fst (get_assets sv owner cursor x) of Inl e \<Rightarrow> True
       | Inr r \<Rightarrow> (case assets r of None \<Rightarrow> True | Some n \<Rightarrow> n \<le> 200)) \<Longrightarrow>
   (hasMore \<longrightarrow> 200 dvd count) \<Longrightarrow> count \<le> 1000 \<Longrightarrow>
   getHolderNFTCount_pages sv a hasMore count cursor w = (Inr r, w') \<Longrightarrow> 1 \<le> r \<and> r \<le> 1000"
proof (induction sv a hasMore count cursor w rule: getHolderNFTCount_pages.induct)
  case (1 sv walletAddress hasMore totalCount cursor w)
  note ok = "1.prems"(1) and dvd = "1.prems"(2) and le = "1.prems"(3) and run = "1.prems"(4)
  define c where "c = (if truthy_str cursor then cursor else None)"
  define w1 where "w1 = journal_add (AssetsRequest c) w"
  show ?case
  proof (cases "hasMore \<and> totalCount < 1000")
    case False
    then show ?thesis
      using run le by (auto simp add: pages_stop)
  next
    case go: True
    obtain r0 w0 where call: "call (get_assets sv walletAddress c) w1 = (r0, w0)"
      by (cases "call (get_assets sv walletAddress c) w1")
    note unfold = pages_step [OF conjunct1 [OF go] conjunct2 [OF go] c_def call [unfolded w1_def]]
    show ?thesis
    proof (cases r0)
      case (Inl e)
      then show ?thesis
        using run by (simp add: unfold)
    next
      case (Inr response)
      let ?n = "case assets response of None \<Rightarrow> 0 | Some n \<Rightarrow> n"
      let ?h = "truthy_str (next response) \<and> ?n = 200"
      have "fst (get_assets sv walletAddress c (remote w1)) = Inr response"
        using call Inr by (auto simp add: call_def split: prod.splits)
      with ok [rule_format, of walletAddress c "remote w1"] have n200: "?n \<le> 200"
        by (simp split: option.splits)
      from go dvd have d: "200 dvd totalCount" by simp
      with go have t800: "totalCount \<le> 800" by (auto elim!: dvdE)
      have run': "getHolderNFTCount_pages sv walletAddress ?h (totalCount + ?n) (next response) w0
                    = (Inr r, w')"
        using run Inr by (simp add: unfold)
      have d': "?h \<longrightarrow> 200 dvd (totalCount + ?n)"
        using d by auto
      have l': "totalCount + ?n \<le> 1000" using t800 n200 by simp
      show ?thesis
        using "1.IH" [OF go call [unfolded w1_def c_def, symmetric] Inr ok d' l' run'] .
    qed
  qed
qed

lemma retry_cost:
  "(\<And>s. m (snd (f s)) \<le> m s + c) \<Longrightarrow>
     m (fst (snd (apiCallWithRetry_from f n d a s tr))) \<le> m s + c * nat (n + 1 - a)"
proof (induction f n d a s tr rule: apiCallWithRetry_from.induct)
  case (1 apiCall maxRetries delay attempt s tr)
  note cost = "1.prems"
  show ?case
  proof (cases "attempt \<le> maxRetries")
    case False
    then show ?thesis
      by (simp add: apiCallWithRetry_from.simps [of apiCall maxRetries delay attempt])
  next
    case le: True
    obtain r s' where c: "apiCall s = (r, s')" by (cases "apiCall s")
    have m': "m s' \<le> m s + c" using cost [of s] c by simp
    from le have pos: "nat (maxRetries + 1 - attempt) = Suc (nat (maxRetries - attempt))" by simp
    show ?thesis
    proof (cases r)
      case (Inr a)
      then show ?thesis
        using le c m'
        by (simp add: apiCallWithRetry_from.simps [of apiCall maxRetries delay attempt] pos)
    next
      case Inl: (Inl e)
      show ?thesis
      proof (cases e)
        case Nullish
        then show ?thesis
          using le c m' Inl
          by (simp add: apiCallWithRetry_from.simps [of apiCall maxRetries delay attempt] pos)
      next
        case Raised: (Raised x)
        show ?thesis
        proof (cases "attempt = maxRetries")
          case True
          then show ?thesis
            using le c m' Inl Raised
            by (simp add: apiCallWithRetry_from.simps [of apiCall maxRetries delay maxRetries])
        next
          case False
          have "m (fst (snd (apiCallWithRetry_from apiCall maxRetries delay (attempt + 1) s'
                   (tr @ [Invoked attempt, Waited (delay * 2 ^ nat (attempt - 1))]))))
                 \<le> m s' + c * nat (maxRetries + 1 - (attempt + 1))"
            using "1.IH" [OF le c [symmetric] Inl Raised False cost] .
          then show ?thesis
            using le c Inl Raised False m'
            by (simp add: apiCallWithRetry_from.simps [of apiCall maxRetries delay attempt] pos)
        qed
      qed
    qed
  qed
qed

lemma snd_raising: "snd (raising f s) = snd (f s)"
  by (simp add: raising_def split: prod.splits sum.splits)

lemma pages_lower:
  "getHolderNFTCount_pages sv a hasMore count cursor w = (Inr r, w') \<Longrightarrow> 1 \<le> r"
proof (induction sv a hasMore count cursor w rule: getHolderNFTCount_pages.induct)
  case (1 sv walletAddress hasMore totalCount cursor w)
  note run = "1.prems"
  define c where "c = (if truthy_str cursor then cursor else None)"
  show ?case
  proof (cases "hasMore \<and> totalCount < 1000")
    case False
    then show ?thesis
      using run by (auto simp add: pages_stop)
  next
    case go: True
    obtain r0 w0 where call: "call (get_assets sv walletAddress c) (journal_add (AssetsRequest c) w) = (r0, w0)"
      by (cases "call (get_assets sv walletAddress c) (journal_add (AssetsRequest c) w)")
    note unfold = pages_step [OF conjunct1 [OF go] conjunct2 [OF go] c_def call]
    show ?thesis
    proof (cases r0)
      case (Inl e)
      then show ?thesis
        using run by (simp add: unfold)
    next
      case (Inr response)
      show ?thesis
        using "1.IH" [OF go call [unfolded c_def, symmetric] Inr] run Inr by (simp add: unfold)
    qed
  qed
qed


text \<open>
  Claim C10, as stated: the value returned is at most 1000 for every sequence of pages.
  The loop adds \<open>assets.length\<close> to the count without looking at it, and the value returned
  is \<open>Math.max(totalCount, 1)\<close>, which bounds the count from below only. A first page of
  1500 items that names no next page ends the loop after one request, and 1500 is returned.
\<close>

theorem getHolderNFTCount_v1_oversized_page:
  "fst (getHolderNFTCount_v1 oversized_page (Some ''0x7a9b'') both_stored) = 1500
   \<and> \<not> fst (getHolderNFTCount_v1 oversized_page (Some ''0x7a9b'') both_stored) \<le> 1000
   \<and> journal (snd (getHolderNFTCount_v1 oversized_page (Some ''0x7a9b'') both_stored))
        = [AssetsRequest None]"
  by (simp add: getHolderNFTCount_v1_def or_default_def apiCallWithRetry_def raising_def
      apiCallWithRetry_from.simps getHolderNFTCount_pages.simps call_def journal_add_def
      oversized_page_def plain_services_def both_stored_def)

text \<open>
  Claim C10, amended. The pagination loop of \<open>getHolderNFTCount\<close> (bot.js:213) is a total
  function for every sequence of pages: its recursion is justified by a measure, since it
  goes on only after a page of exactly 200 items and while the count is below 1000. One
  pass of the loop sends at most 5 page requests and the whole call, with its retries, at
  most 15, whatever the pages hold. The value returned is always at least 1. It is at most
  1000 when no page holds more than the 200 items each request asks for (\<open>limit: 200\<close>).
\<close>

theorem getHolderNFTCount_v1_bounded:
  "1 \<le> fst (getHolderNFTCount_v1 sv a w)
    \<and> assets_requests (journal (snd (getHolderNFTCount_pages sv a True 0 None w)))
         \<le> assets_requests (journal w) + 5
    \<and> assets_requests (journal (snd (getHolderNFTCount_v1 sv a w)))
         \<le> assets_requests (journal w) + 15
    \<and> ((\<forall>owner cursor x. case fst (get_assets sv owner cursor x) of Inl e \<Rightarrow> True
                 | Inr r \<Rightarrow> (case assets r of None \<Rightarrow> True | Some n \<Rightarrow> n \<le> 200))
         \<longrightarrow> fst (getHolderNFTCount_v1 sv a w) \<le> 1000)"
proof -
  let ?L = "\<lambda>r::nat. 1 \<le> r"
  have "?L (fst (or_default 1 (apiCallWithRetry (raising (getHolderNFTCount_pages sv a True 0 None)) 3 RETRY_DELAY w)))
      \<and> True"
  proof (rule or_default_retry [where I = "\<lambda>s. True" and Q = ?L])
    show True ..
    show "?L 1" by simp
    show "True \<and> (\<forall>b. r = Inr b \<longrightarrow> ?L b)"
      if "getHolderNFTCount_pages sv a True 0 None s = (r, s')" for s r s'
      using pages_lower [of sv a True 0 None s _ s'] that by simp
  qed
  then have l: "1 \<le> fst (getHolderNFTCount_v1 sv a w)"
    by (simp add: getHolderNFTCount_v1_def)
  have p: "assets_requests (journal (snd (getHolderNFTCount_pages sv a True 0 None w)))
         \<le> assets_requests (journal w) + 5"
    using pages_requests [of sv a True 0 None w] by simp
  have "assets_requests (journal (fst (snd (apiCallWithRetry_from
            (raising (getHolderNFTCount_pages sv a True 0 None)) 3 RETRY_DELAY 1 w []))))
       \<le> assets_requests (journal w) + 5 * nat (3 + 1 - 1)"
    by (rule retry_cost [where m = "\<lambda>s. assets_requests (journal s)"])
       (use pages_requests [of sv a True 0 None] in \<open>simp add: snd_raising\<close>)
  then have t: "assets_requests (journal (snd (getHolderNFTCount_v1 sv a w)))
         \<le> assets_requests (journal w) + 15"
    by (auto simp add: getHolderNFTCount_v1_def apiCallWithRetry_def or_default_def
        split: prod.splits outcome.splits)
  have u: "fst (getHolderNFTCount_v1 sv a w) \<le> 1000"
    if ok: "\<forall>owner cursor x. case fst (get_assets sv owner cursor x) of Inl e \<Rightarrow> True
                 | Inr r \<Rightarrow> (case assets r of None \<Rightarrow> True | Some n \<Rightarrow> n \<le> 200)"
  proof -
    let ?Q = "\<lambda>r::nat. r \<le> 1000"
    have "?Q (fst (or_default 1 (apiCallWithRetry (raising (getHolderNFTCount_pages sv a True 0 None)) 3 RETRY_DELAY w)))
        \<and> True"
    proof (rule or_default_retry [where I = "\<lambda>s. True" and Q = ?Q])
      show True ..
      show "?Q 1" by simp
      show "True \<and> (\<forall>b. r = Inr b \<longrightarrow> ?Q b)"
        if "getHolderNFTCount_pages sv a True 0 None s = (r, s')" for s r s'
        using pages_bounds [OF ok, of True 0 a None s _ s'] that by simp
    qed
    then show ?thesis by (simp add: getHolderNFTCount_v1_def)
  qed
  from l p t u show ?thesis by blast
qed

theorem getHolderNFTCount_v1_bounded_witness:
  "(\<forall>owner cursor x. case fst (get_assets full_pages owner cursor x) of Inl e \<Rightarrow> True
       | Inr r \<Rightarrow> (case assets r of None \<Rightarrow> True | Some n \<Rightarrow> n \<le> 200))
   \<and> fst (getHolderNFTCount_v1 full_pages (Some ''0x7a9b'') both_stored) = 1000
   \<and> assets_requests (journal (snd (getHolderNFTCount_v1 full_pages (Some ''0x7a9b'') both_stored)))
        = 5"
  using getHolderNFTCount_v1_bounded [of full_pages "Some ''0x7a9b''" both_stored]
  by (simp add: getHolderNFTCount_v1_def or_default_def apiCallWithRetry_def raising_def
      apiCallWithRetry_from.simps getHolderNFTCount_pages.simps call_def journal_add_def
      full_pages_def plain_services_def both_stored_def)


section \<open>What the journal records\<close>

lemma visible_append [simp]: "visible (xs @ ys) = visible xs @ visible ys"
  by (induction xs rule: visible.induct) simp_all

lemma processed_append [simp]: "processed (xs @ ys) = processed xs @ processed ys"
  by (induction xs rule: processed.induct) simp_all

lemma sale_tweet_calls_append [simp]:
  "sale_tweet_calls (xs @ ys) = sale_tweet_calls xs @ sale_tweet_calls ys"
  by (induction xs rule: sale_tweet_calls.induct) simp_all

lemma floor_tweet_calls_append [simp]:
  "floor_tweet_calls (xs @ ys) = floor_tweet_calls xs + floor_tweet_calls ys"
  by (induction xs rule: floor_tweet_calls.induct) simp_all

lemma processed_visible: "processed (visible js) = processed js"
  by (induction js rule: visible.induct) simp_all

lemma sale_tweet_calls_visible: "sale_tweet_calls (visible js) = sale_tweet_calls js"
proof (induction js)
  case Nil
  show ?case by simp
next
  case (Cons e es)
  have a: "sale_tweet_calls (x # xs) = sale_tweet_calls [x] @ sale_tweet_calls xs" for x xs
    using sale_tweet_calls_append [of "[x]" xs] by simp
  show ?case
    by (cases e) (simp_all add: a [of _ "visible es"] a [of _ es] Cons.IH)
qed

lemma floor_tweet_calls_visible: "floor_tweet_calls (visible js) = floor_tweet_calls js"
proof (induction js)
  case Nil
  show ?case by simp
next
  case (Cons e es)
  have a: "floor_tweet_calls (x # xs) = floor_tweet_calls [x] + floor_tweet_calls xs" for x xs
    using floor_tweet_calls_append [of "[x]" xs] by simp
  show ?case
    by (cases e) (simp_all add: a [of _ "visible es"] a [of _ es] Cons.IH)
qed

lemma vis_call [simp]: "vis (snd (call f w)) = vis w"
  by (simp add: vis_def)

lemma vis_journal_add [simp]: "vis (journal_add e w) = vis w @ visible [e]"
  by (simp add: vis_def)

lemma vis_write_checkpoint [simp]: "vis (snd (write_checkpoint sv data w)) = vis w"
proof -
  obtain r w' where c: "call (writeFile sv data) w = (r, w')"
    by (cases "call (writeFile sv data) w")
  have "vis w' = vis w" using vis_call [of "writeFile sv data" w] by (simp add: c)
  then show ?thesis
    by (cases r) (simp_all add: write_checkpoint_def c vis_def)
qed

lemma vis_updateLastCheckTime_v1 [simp]: "vis (snd (updateLastCheckTime_v1 sv w)) = vis w"
  by (simp add: updateLastCheckTime_v1_def Let_def)

lemma vis_updateLastCheckTime_v3 [simp]: "vis (updateLastCheckTime_v3 sv w) = vis w"
  by (simp add: updateLastCheckTime_v3_def Let_def)

lemma vis_updateLastFloorAlert [simp]: "vis (updateLastFloorAlert sv w) = vis w"
  by (simp add: updateLastFloorAlert_def Let_def)

lemma vis_retry:
  assumes "\<And>s. vis (snd (f s)) = vis s"
  shows "vis (snd (or_default d (apiCallWithRetry (raising f) n dl w))) = vis w"
proof -
  have "True \<and> vis (snd (or_default d (apiCallWithRetry (raising f) n dl w))) = vis w"
  proof (rule or_default_retry [where I = "\<lambda>s. vis s = vis w" and Q = "\<lambda>a. True"])
    show "vis w = vis w" ..
    show True ..
    show "vis s' = vis w \<and> (\<forall>a. r = Inr a \<longrightarrow> True)" if "vis s = vis w" and "f s = (r, s')" for s r s'
      using assms [of s] that by simp
  qed
  then show ?thesis by simp
qed

lemma vis_case_call:
  "vis (snd (case call f w of (Inl e, w') \<Rightarrow> (Inl e, w') | (Inr a, w') \<Rightarrow> (Inr (g a), w'))) = vis w"
proof -
  obtain r w' where c: "call f w = (r, w')" by (cases "call f w")
  have "vis w' = vis w" using vis_call [of f w] by (simp add: c)
  then show ?thesis by (cases r) (simp_all add: c)
qed

lemma vis_fetchRecentSales_v1 [simp]: "vis (snd (fetchRecentSales_v1 sv w)) = vis w"
  unfolding fetchRecentSales_v1_def
  by (rule vis_retry) (simp add: fetchRecentSales_v1_call_def vis_case_call)

lemma vis_callD: "call f w = (r, w') \<Longrightarrow> vis w' = vis w"
  using vis_call [of f w] by simp

lemma vis_fetchRecentSales_v2 [simp]: "vis (snd (fetchRecentSales_v2 sv w)) = vis w"
  unfolding fetchRecentSales_v2_def
  by (rule vis_retry)
     (auto simp add: fetchRecentSales_v2_call_def Let_def split: prod.splits sum.splits dest: vis_callD)

lemma vis_fetchRecentSales_v3 [simp]: "vis (snd (fetchRecentSales_v3 sv w)) = vis w"
  unfolding fetchRecentSales_v3_def
  by (rule vis_retry)
     (auto simp add: fetchRecentSales_v3_call_def Let_def split: prod.splits sum.splits dest: vis_callD)

lemma vis_getHolderNFTCount_v2 [simp]: "vis (snd (getHolderNFTCount_v2 sv a w)) = vis w"
  unfolding getHolderNFTCount_v2_def
  by (rule vis_retry)
     (auto simp add: getHolderNFTCount_v2_call_def split: prod.splits sum.splits dest: vis_callD)

lemma vis_getSellerNFTCount_v2 [simp]: "vis (snd (getSellerNFTCount_v2 sv a w)) = vis w"
  unfolding getSellerNFTCount_v2_def
  by (rule vis_retry)
     (auto simp add: getSellerNFTCount_v2_call_def split: prod.splits sum.splits dest: vis_callD)

lemma vis_getSellerNFTCount_v1 [simp]: "vis (snd (getSellerNFTCount_v1 sv a w)) = vis w"
  unfolding getSellerNFTCount_v1_def
  by (rule vis_retry)
     (auto simp add: getSellerNFTCount_v1_call_def split: prod.splits sum.splits dest: vis_callD)

lemma vis_getFloorPriceNFT [simp]: "vis (snd (getFloorPriceNFT sv w)) = vis w"
  unfolding getFloorPriceNFT_def
  by (rule vis_retry)
     (auto simp add: getFloorPriceNFT_call_def split: prod.splits sum.splits list.splits dest: vis_callD)

lemma vis_getNFTImageUrl [simp]: "vis (snd (getNFTImageUrl sv t w)) = vis w"
  unfolding getNFTImageUrl_def
  by (rule vis_retry) simp

lemma vis_pages [simp]:
  "vis (snd (getHolderNFTCount_pages sv a hasMore count cursor w)) = vis w"
proof (induction sv a hasMore count cursor w rule: getHolderNFTCount_pages.induct)
  case (1 sv walletAddress hasMore totalCount cursor w)
  define c where "c = (if truthy_str cursor then cursor else None)"
  show ?case
  proof (cases "hasMore \<and> totalCount < 1000")
    case False
    then show ?thesis by (simp add: pages_stop)
  next
    case go: True
    obtain r w' where call: "call (get_assets sv walletAddress c) (journal_add (AssetsRequest c) w) = (r, w')"
      by (cases "call (get_assets sv walletAddress c) (journal_add (AssetsRequest c) w)")
    have v: "vis w' = vis w" using vis_callD [OF call] by simp
    note unfold = pages_step [OF conjunct1 [OF go] conjunct2 [OF go] c_def call]
    show ?thesis
    proof (cases r)
      case (Inl e)
      then show ?thesis unfolding unfold using v by simp
    next
      case (Inr response)
      show ?thesis
        unfolding unfold using "1.IH" [OF go call [unfolded c_def, symmetric] Inr] v Inr by simp
    qed
  qed
qed

lemma vis_getHolderNFTCount_v1 [simp]: "vis (snd (getHolderNFTCount_v1 sv a w)) = vis w"
  unfolding getHolderNFTCount_v1_def
  by (rule vis_retry) simp

lemma vis_attach_image [simp]: "vis (snd (attach_image sv url w)) = vis w"
  by (auto simp add: attach_image_def split: option.splits prod.splits sum.splits dest!: vis_callD)

lemma vis_createFloorAlertImage [simp]: "vis (snd (createFloorAlertImage sv url w)) = vis w"
  by (simp add: createFloorAlertImage_def split: option.splits)

lemma vis_resolve_seller_v1 [simp]: "vis (snd (resolve_seller_v1 sv s w)) = vis w"
proof (cases "getSellerNFTCount_v1 sv (seller s) w")
  case (Pair n w')
  have "vis w' = vis w"
    using vis_getSellerNFTCount_v1 [of sv "seller s" w] by (simp add: Pair)
  then show ?thesis by (simp add: resolve_seller_v1_def Pair)
qed

lemma vis_resolve_seller_v2 [simp]: "vis (snd (resolve_seller_v2 sv s w)) = vis w"
proof (cases "seller s")
  case None
  then show ?thesis by (simp add: resolve_seller_v2_def)
next
  case (Some a)
  obtain n w' where p: "getSellerNFTCount_v2 sv a w = (n, w')"
    by (cases "getSellerNFTCount_v2 sv a w")
  have "vis w' = vis w"
    using vis_getSellerNFTCount_v2 [of sv a w] by (simp add: p)
  then show ?thesis
    using Some by (simp add: resolve_seller_v2_def p)
qed

lemma tweet_with_fallback_vis:
  "\<exists>js. vis (tweet_with_fallback sv m n w) = vis w @ TweetCall m n (\<not> isl (fst (call (tweet sv m n) w))) # js
      \<and> (\<forall>j \<in> set js. \<exists>ok. j = FallbackTweetCall m ok)"
  by (auto simp add: tweet_with_fallback_def Let_def split: prod.splits sum.splits dest!: vis_callD)

lemma fallback_entries:
  "\<forall>j \<in> set js. \<exists>ok. j = FallbackTweetCall m ok \<Longrightarrow>
     processed js = [] \<and> sale_tweet_calls js = []
     \<and> (m \<noteq> FloorReport \<longrightarrow> floor_tweet_calls js = 0)"
proof (induction js)
  case Nil
  show ?case by simp
next
  case (Cons j js)
  then obtain ok where j: "j = FallbackTweetCall m ok" by auto
  from Cons have IH: "processed js = [] \<and> sale_tweet_calls js = []
     \<and> (m \<noteq> FloorReport \<longrightarrow> floor_tweet_calls js = 0)" by simp
  show ?case using IH j by (cases m) simp_all
qed

lemma tweet_sale_measures:
  "processed (vis (tweet_with_fallback sv (SaleReport s b c) n w)) = processed (vis w)
   \<and> sale_tweet_calls (vis (tweet_with_fallback sv (SaleReport s b c) n w))
       = sale_tweet_calls (vis w) @ [s]
   \<and> floor_tweet_calls (vis (tweet_with_fallback sv (SaleReport s b c) n w))
       = floor_tweet_calls (vis w)"
proof -
  obtain js ok where v: "vis (tweet_with_fallback sv (SaleReport s b c) n w)
        = vis w @ TweetCall (SaleReport s b c) n ok # js"
    and f: "\<forall>j \<in> set js. \<exists>ok. j = FallbackTweetCall (SaleReport s b c) ok"
    using tweet_with_fallback_vis [of sv "SaleReport s b c" n w] by blast
  from fallback_entries [OF f] show ?thesis by (simp add: v)
qed

lemma journal_add_Processing_measures:
  "processed (vis (journal_add (Processing s) w)) = processed (vis w) @ [s]
   \<and> sale_tweet_calls (vis (journal_add (Processing s) w)) = sale_tweet_calls (vis w)
   \<and> floor_tweet_calls (vis (journal_add (Processing s) w)) = floor_tweet_calls (vis w)"
  by simp

lemma processSale_v2_valid:
  assumes "isValidSaleEvent s"
  shows "fst (processSale_v2 sv s w) = Inr ()
     \<and> processed (vis (snd (processSale_v2 sv s w))) = processed (vis w) @ [s]
     \<and> sale_tweet_calls (vis (snd (processSale_v2 sv s w))) = sale_tweet_calls (vis w) @ [s]
     \<and> floor_tweet_calls (vis (snd (processSale_v2 sv s w))) = floor_tweet_calls (vis w)"
proof -
  from assms obtain a p where b: "buyer s = Some a" "a \<noteq> []" and n: "nft s = Some p"
    by (cases "buyer s"; cases "nft s") (auto simp add: isValidSaleEvent_iff)
  define w0 where "w0 = journal_add (Processing s) w"
  obtain bc w1 where h: "getHolderNFTCount_v2 sv a w0 = (bc, w1)"
    by (cases "getHolderNFTCount_v2 sv a w0")
  obtain sc st w2 where r: "resolve_seller_v2 sv s w1 = ((sc, st), w2)"
    by (cases "resolve_seller_v2 sv s w1") auto
  obtain m w3 where i: "attach_image sv (image_url p) w2 = (m, w3)"
    by (cases "attach_image sv (image_url p) w2")
  have v1: "vis w1 = vis w0" using vis_getHolderNFTCount_v2 [of sv a w0] by (simp add: h)
  have v2: "vis w2 = vis w1" using vis_resolve_seller_v2 [of sv s w1] by (simp add: r)
  have v3: "vis w3 = vis w2" using vis_attach_image [of sv "image_url p" w2] by (simp add: i)
  have eq: "processSale_v2 sv s w =
      (Inr (), tweet_with_fallback sv
                 (SaleReport s (getHolderTier (int bc), int bc) (st, int sc)) m w3)"
    by (simp add: processSale_v2_def Let_def b n w0_def [symmetric] h r i)
  show ?thesis
    unfolding eq using tweet_sale_measures [of sv s _ _ m w3]
    by (simp add: v3 v2 v1 w0_def)
qed

lemma processSale_v2_floor:
  "floor_tweet_calls (vis (snd (processSale_v2 sv s w))) = floor_tweet_calls (vis w)"
proof -
  define w0 where "w0 = journal_add (Processing s) w"
  have f0: "floor_tweet_calls (vis w0) = floor_tweet_calls (vis w)" by (simp add: w0_def)
  show ?thesis
  proof (cases "buyer s")
    case None
    then show ?thesis by (simp add: processSale_v2_def Let_def)
  next
    case (Some a)
    show ?thesis
    proof (cases "a = []")
      case True
      then show ?thesis using Some by (simp add: processSale_v2_def Let_def)
    next
      case False
      obtain bc w1 where h: "getHolderNFTCount_v2 sv a w0 = (bc, w1)"
        by (cases "getHolderNFTCount_v2 sv a w0")
      obtain sc st w2 where r: "resolve_seller_v2 sv s w1 = ((sc, st), w2)"
        by (cases "resolve_seller_v2 sv s w1") auto
      have v1: "vis w1 = vis w0" using vis_getHolderNFTCount_v2 [of sv a w0] by (simp add: h)
      have v2: "vis w2 = vis w1" using vis_resolve_seller_v2 [of sv s w1] by (simp add: r)
      show ?thesis
      proof (cases "nft s")
        case None
        then show ?thesis
          using Some False f0
          by (simp add: processSale_v2_def Let_def w0_def [symmetric] h r v2 v1)
      next
        case (Some p)
        obtain m w3 where i: "attach_image sv (image_url p) w2 = (m, w3)"
          by (cases "attach_image sv (image_url p) w2")
        have v3: "vis w3 = vis w2" using vis_attach_image [of sv "image_url p" w2] by (simp add: i)
        have eq: "processSale_v2 sv s w =
            (Inr (), tweet_with_fallback sv
                 (SaleReport s (getHolderTier (int bc), int bc) (st, int sc)) m w3)"
          using \<open>buyer s = Some a\<close> False Some
          by (simp add: processSale_v2_def Let_def w0_def [symmetric] h r i)
        show ?thesis
          unfolding eq using tweet_sale_measures [of sv s _ _ m w3] f0
          by (simp add: v3 v2 v1)
      qed
    qed
  qed
qed

lemma for_each_v2_valid:
  "\<forall>s \<in> set xs. isValidSaleEvent s \<Longrightarrow>
     fst (for_each (processSale_v2 sv) xs w) = Inr ()
     \<and> processed (vis (snd (for_each (processSale_v2 sv) xs w))) = processed (vis w) @ xs
     \<and> sale_tweet_calls (vis (snd (for_each (processSale_v2 sv) xs w)))
         = sale_tweet_calls (vis w) @ xs"
proof (induction xs arbitrary: w)
  case Nil
  show ?case by simp
next
  case (Cons x xs)
  then have x: "isValidSaleEvent x" and xs: "\<forall>s \<in> set xs. isValidSaleEvent s" by simp_all
  obtain w' where p: "processSale_v2 sv x w = (Inr (), w')"
    using processSale_v2_valid [OF x, of sv w] by (cases "processSale_v2 sv x w") simp
  from processSale_v2_valid [OF x, of sv w] p
  have m: "processed (vis w') = processed (vis w) @ [x]"
    "sale_tweet_calls (vis w') = sale_tweet_calls (vis w) @ [x]" by simp_all
  show ?case using Cons.IH [OF xs, of w'] by (simp add: p m)
qed

lemma for_each_v2_floor:
  "floor_tweet_calls (vis (snd (for_each (processSale_v2 sv) xs w))) = floor_tweet_calls (vis w)"
proof (induction xs arbitrary: w)
  case Nil
  show ?case by simp
next
  case (Cons x xs)
  obtain r w' where p: "processSale_v2 sv x w = (r, w')" by (cases "processSale_v2 sv x w")
  have f: "floor_tweet_calls (vis w') = floor_tweet_calls (vis w)"
    using processSale_v2_floor [of sv x w] by (simp add: p)
  show ?case
    using Cons.IH [of w'] f by (cases r) (simp_all add: p)
qed

lemma journal_measures:
  "processed (journal w) = processed (vis w)"
  "sale_tweet_calls (journal w) = sale_tweet_calls (vis w)"
  "floor_tweet_calls (journal w) = floor_tweet_calls (vis w)"
  by (simp_all add: vis_def processed_visible sale_tweet_calls_visible floor_tweet_calls_visible)


text \<open>Unfolding the whole model, for runs on concrete worlds.\<close>

lemmas model_defs =
  runBot_v1_def runBot_v2_def runBot_v3_def processBatch_v1_def processBatch_v2_def processBatch_v3_def
  processSale_v1_def processSale_v2_def post_v1_def floorAlert_v1_def floorAlert_v2_def floorAlert_v3_def
  resolve_seller_v1_def resolve_seller_v2_def
  tweet_with_fallback_def attach_image_def createFloorAlertImage_def createSaleImage_def
  getNFTImageUrl_def getFloorPriceNFT_def getFloorPriceNFT_call_def
  getHolderNFTCount_v1_def getHolderNFTCount_v2_def getHolderNFTCount_v2_call_def
  getSellerNFTCount_v1_def getSellerNFTCount_v1_call_def getSellerNFTCount_v2_def getSellerNFTCount_v2_call_def
  fetchRecentSales_v1_def fetchRecentSales_v2_def fetchRecentSales_v3_def
  fetchRecentSales_v1_call_def fetchRecentSales_v2_call_def fetchRecentSales_v3_call_def
  shouldPostFloorAlert_v1_def shouldPostFloorAlert_v3_def shouldPostFloorAlert_after_def
  updateLastCheckTime_v1_def updateLastCheckTime_v3_def updateLastFloorAlert_def write_checkpoint_def
  getLastCheckTime_def seconds_of_def response_events_def
  or_default_def apiCallWithRetry_def apiCallWithRetry_from.simps raising_def
  getHolderNFTCount_pages.simps
  call_def journal_add_def isValidSaleEvent_def getHolderTier_def Let_def



section \<open>Properties of the batch loop\<close>

text \<open>In the second draft and in part_000 every valid event among the first three is
  started and reaches the tweet call, in order, and no other event does.\<close>

lemma processBatch_first_three:
  assumes "\<forall>s \<in> set sales. isValidSaleEvent s"
  shows "processed (journal (processBatch_v2 sv sales w)) = processed (journal w) @ take 3 sales
     \<and> sale_tweet_calls (journal (processBatch_v2 sv sales w))
         = sale_tweet_calls (journal w) @ take 3 sales
     \<and> processed (journal (processBatch_v3 sv sales w)) = processed (journal w) @ take 3 sales
     \<and> sale_tweet_calls (journal (processBatch_v3 sv sales w))
         = sale_tweet_calls (journal w) @ take 3 sales"
proof -
  have v: "\<forall>s \<in> set (take 3 sales). isValidSaleEvent s"
    using assms by (auto dest: in_set_takeD)
  obtain w' where f: "for_each (processSale_v2 sv) (take 3 sales) w = (Inr (), w')"
    using for_each_v2_valid [OF v, of sv w]
    by (cases "for_each (processSale_v2 sv) (take 3 sales) w") simp
  from for_each_v2_valid [OF v, of sv w] f
  have m: "processed (vis w') = processed (vis w) @ take 3 sales"
    "sale_tweet_calls (vis w') = sale_tweet_calls (vis w) @ take 3 sales" by simp_all
  show ?thesis
    by (simp add: journal_measures processBatch_v2_def processBatch_v3_def Let_def f m)
qed

lemma fetchRecentSales_v3_valid: "\<forall>e \<in> set (fst (fetchRecentSales_v3 sv w)). isValidSaleEvent e"
proof -
  let ?Q = "\<lambda>a. \<forall>e \<in> set a. isValidSaleEvent e"
  have "?Q (fst (or_default [] (apiCallWithRetry (raising (fetchRecentSales_v3_call sv)) 3 RETRY_DELAY w)))
     \<and> True"
  proof (rule or_default_retry [where I = "\<lambda>s. True" and Q = ?Q])
    show True ..
    show "?Q []" by simp
    show "True \<and> (\<forall>a. r = Inr a \<longrightarrow> ?Q a)"
      if "fetchRecentSales_v3_call sv s = (r, s')" for s r s'
      using that
      by (auto simp add: fetchRecentSales_v3_call_def Let_def split: prod.splits sum.splits if_splits)
  qed
  then show ?thesis by (simp add: fetchRecentSales_v3_def)
qed

lemma runBot_v3_first_three:
  assumes "fst (fetchRecentSales_v3 sv w) = sales" and "sales \<noteq> []"
  shows "processed (journal (runBot_v3 sv w)) = processed (journal w) @ take 3 sales
     \<and> sale_tweet_calls (journal (runBot_v3 sv w)) = sale_tweet_calls (journal w) @ take 3 sales"
proof -
  obtain w1 where f: "fetchRecentSales_v3 sv w = (sales, w1)"
    using assms(1) by (cases "fetchRecentSales_v3 sv w") simp
  have v: "\<forall>s \<in> set sales. isValidSaleEvent s"
    using fetchRecentSales_v3_valid [of sv w] by (simp add: f)
  have w1: "vis w1 = vis w" using vis_fetchRecentSales_v3 [of sv w] by (simp add: f)
  have r: "runBot_v3 sv w = processBatch_v3 sv sales w1"
    using assms(2) by (simp add: runBot_v3_def f Let_def)
  show ?thesis
    unfolding r using processBatch_first_three [OF v, of sv w1]
    by (simp add: journal_measures w1)
qed


text \<open>In the first draft the loop starts on a prefix of the first three events.\<close>

lemma post_v1_processed:
  "processed (vis (post_v1 sv m buf url w)) = processed (vis w)"
proof -
  obtain r w1 where u: "call (uploadMedia sv buf) w = (r, w1)"
    by (cases "call (uploadMedia sv buf) w")
  have v1: "vis w1 = vis w" using vis_callD [OF u] .
  obtain k w2 where a: "attach_image sv url w1 = (k, w2)" by (cases "attach_image sv url w1")
  have v2: "vis w2 = vis w1" using vis_attach_image [of sv url w1] by (simp add: a)
  obtain r3 w3 where t: "call (tweet sv m (Suc k)) w2 = (r3, w3)"
    by (cases "call (tweet sv m (Suc k)) w2")
  have v3: "vis w3 = vis w2" using vis_callD [OF t] .
  show ?thesis
    by (cases r; cases r3) (simp_all add: post_v1_def u a t v1 v2 v3)
qed

lemma processSale_v1_processed:
  "\<exists>k. processed (vis (snd (processSale_v1 sv s w))) = processed (vis w) @ take k [s]
      \<and> (fst (processSale_v1 sv s w) = Inr () \<longrightarrow> k = 1)"
proof (cases "nft s")
  case None
  then show ?thesis by (simp add: processSale_v1_def)
next
  case (Some p)
  define w0 where "w0 = journal_add (Processing s) w"
  have f0: "processed (vis w0) = processed (vis w) @ [s]" by (simp add: w0_def)
  obtain bc w1 where h: "getHolderNFTCount_v1 sv (buyer s) w0 = (bc, w1)"
    by (cases "getHolderNFTCount_v1 sv (buyer s) w0")
  obtain sc st w2 where r: "resolve_seller_v1 sv s w1 = ((sc, st), w2)"
    by (cases "resolve_seller_v1 sv s w1") auto
  obtain url w3 where g: "getNFTImageUrl sv (Some (identifier p)) w2 = (url, w3)"
    by (cases "getNFTImageUrl sv (Some (identifier p)) w2")
  have v1: "vis w1 = vis w0" using vis_getHolderNFTCount_v1 [of sv "buyer s" w0] by (simp add: h)
  have v2: "vis w2 = vis w1" using vis_resolve_seller_v1 [of sv s w1] by (simp add: r)
  have v3: "vis w3 = vis w2"
    using vis_getNFTImageUrl [of sv "Some (identifier p)" w2] by (simp add: g)
  have "processed (vis (snd (processSale_v1 sv s w))) = processed (vis w) @ take 1 [s]"
    using f0
    by (simp add: processSale_v1_def Let_def Some w0_def [symmetric] h r g v1 v2 v3
        post_v1_processed split: option.splits sum.splits)
  then show ?thesis by blast
qed

lemma for_each_v1_prefix:
  "\<exists>k. processed (vis (snd (for_each (processSale_v1 sv) xs w))) = processed (vis w) @ take k xs"
proof (induction xs arbitrary: w)
  case Nil
  show ?case by simp
next
  case (Cons x xs)
  obtain r w' where p: "processSale_v1 sv x w = (r, w')" by (cases "processSale_v1 sv x w")
  from processSale_v1_processed [of sv x w] p
  obtain k0 where k0: "processed (vis w') = processed (vis w) @ take k0 [x]"
    and ok: "r = Inr () \<longrightarrow> k0 = 1" by auto
  show ?case
  proof (cases r)
    case (Inl e)
    have "take k0 [x] = take (min k0 1) (x # xs)" by (cases k0) simp_all
    then show ?thesis using Inl k0 by (auto simp add: p)
  next
    case (Inr u)
    with ok have "k0 = 1" by simp
    with k0 have w': "processed (vis w') = processed (vis w) @ [x]" by simp
    from Cons.IH [of w'] obtain k where
      "processed (vis (snd (for_each (processSale_v1 sv) xs w'))) = processed (vis w') @ take k xs"
      by blast
    then have "processed (vis (snd (for_each (processSale_v1 sv) (x # xs) w)))
                 = processed (vis w) @ take (Suc k) (x # xs)"
      using Inr by (simp add: p w')
    then show ?thesis by blast
  qed
qed

lemma processBatch_v1_at_most_three:
  "\<exists>k \<le> 3. processed (journal (processBatch_v1 sv sales w)) = processed (journal w) @ take k sales"
proof -
  obtain r w' where f: "for_each (processSale_v1 sv) (take 3 sales) w = (r, w')"
    by (cases "for_each (processSale_v1 sv) (take 3 sales) w")
  from for_each_v1_prefix [of sv "take 3 sales" w] f
  obtain k where k: "processed (vis w') = processed (vis w) @ take k (take 3 sales)" by auto
  have t: "take k (take 3 sales) = take (min k 3) sales" by (simp add: min.commute)
  have "processed (journal (processBatch_v1 sv sales w)) = processed (journal w) @ take (min k 3) sales"
    by (cases r) (simp_all add: journal_measures processBatch_v1_def Let_def f k t)
  moreover have "min k 3 \<le> 3" by simp
  ultimately show ?thesis by blast
qed


text \<open>
  Claim C8. Of ten valid fetched events exactly the first three are to be attempted. The
  first draft of \<open>runBot\<close> (bot.js:669) takes \<open>sales.slice(0, 3)\<close> as well, but calls
  \<open>createSaleImage\<close> outside the \<open>try\<close> block of the loop body: with the canvas module
  loaded and events in the marketplace's current format (no \<open>winner_account\<close>), the call
  throws on the first event, the loop is left, and the run ends with one event started and
  no tweet call made. On the same ten events the loop of part_000 starts on, and tweets
  for, exactly the first three.
\<close>

theorem runBot_v1_stops_at_first_event:
  "fst (fetchRecentSales_v1 ten_sales_market both_stored) = ten_sales
   \<and> length ten_sales = 10 \<and> list_all isValidSaleEvent ten_sales
   \<and> \<not> shouldPostFloorAlert_v1 ten_sales_market both_stored
   \<and> processed (journal (runBot_v1 ten_sales_market both_stored)) = take 1 ten_sales
   \<and> sale_tweet_calls (journal (runBot_v1 ten_sales_market both_stored)) = []
   \<and> processed (journal (runBot_v3 ten_sales_market both_stored)) = take 3 ten_sales
   \<and> sale_tweet_calls (journal (runBot_v3 ten_sales_market both_stored)) = take 3 ten_sales"
  by (simp add: model_defs ten_sales_market_def ten_sales_def both_stored_def
      plain_services_def sale_paying_def)

theorem runBot_v1_stops_at_first_event_witness:
  "processed (journal (runBot_v1 ten_sales_market both_stored)) = take 1 ten_sales
   \<and> sale_tweet_calls (journal (runBot_v1 ten_sales_market both_stored)) = []"
  using runBot_v1_stops_at_first_event by simp


section \<open>Properties of the floor alert\<close>

lemma processBatch_floor:
  "floor_tweet_calls (vis (processBatch_v2 sv sales w)) = floor_tweet_calls (vis w)"
  "floor_tweet_calls (vis (processBatch_v3 sv sales w)) = floor_tweet_calls (vis w)"
proof -
  obtain r w' where f: "for_each (processSale_v2 sv) (take 3 sales) w = (r, w')"
    by (cases "for_each (processSale_v2 sv) (take 3 sales) w")
  have m: "floor_tweet_calls (vis w') = floor_tweet_calls (vis w)"
    using for_each_v2_floor [of sv "take 3 sales" w] by (simp add: f)
  show "floor_tweet_calls (vis (processBatch_v2 sv sales w)) = floor_tweet_calls (vis w)"
    by (cases r) (simp_all add: processBatch_v2_def Let_def f m)
  show "floor_tweet_calls (vis (processBatch_v3 sv sales w)) = floor_tweet_calls (vis w)"
    by (cases r) (simp_all add: processBatch_v3_def Let_def f m)
qed

lemma runBot_v2_no_floor_with_sales:
  assumes "fst (fetchRecentSales_v2 sv w) \<noteq> []"
  shows "floor_tweet_calls (journal (runBot_v2 sv w)) = floor_tweet_calls (journal w)"
proof -
  obtain sales w1 where f: "fetchRecentSales_v2 sv w = (sales, w1)"
    by (cases "fetchRecentSales_v2 sv w")
  have w1: "vis w1 = vis w" using vis_fetchRecentSales_v2 [of sv w] by (simp add: f)
  have r: "runBot_v2 sv w = processBatch_v2 sv sales w1"
    using assms by (simp add: runBot_v2_def f Let_def)
  show ?thesis by (simp add: journal_measures r processBatch_floor w1)
qed

lemma runBot_v3_no_floor_with_sales:
  assumes "fst (fetchRecentSales_v3 sv w) \<noteq> []"
  shows "floor_tweet_calls (journal (runBot_v3 sv w)) = floor_tweet_calls (journal w)"
proof -
  obtain sales w1 where f: "fetchRecentSales_v3 sv w = (sales, w1)"
    by (cases "fetchRecentSales_v3 sv w")
  have w1: "vis w1 = vis w" using vis_fetchRecentSales_v3 [of sv w] by (simp add: f)
  have r: "runBot_v3 sv w = processBatch_v3 sv sales w1"
    using assms by (simp add: runBot_v3_def f Let_def)
  show ?thesis by (simp add: journal_measures r processBatch_floor w1)
qed

lemma post_v1_floor:
  "floor_tweet_calls (vis (post_v1 sv (SaleReport s b c) buf url w)) = floor_tweet_calls (vis w)"
proof -
  obtain r w1 where u: "call (uploadMedia sv buf) w = (r, w1)"
    by (cases "call (uploadMedia sv buf) w")
  have v1: "vis w1 = vis w" using vis_callD [OF u] .
  obtain k w2 where a: "attach_image sv url w1 = (k, w2)" by (cases "attach_image sv url w1")
  have v2: "vis w2 = vis w1" using vis_attach_image [of sv url w1] by (simp add: a)
  obtain r3 w3 where t: "call (tweet sv (SaleReport s b c) (Suc k)) w2 = (r3, w3)"
    by (cases "call (tweet sv (SaleReport s b c) (Suc k)) w2")
  have v3: "vis w3 = vis w2" using vis_callD [OF t] .
  show ?thesis
    by (cases r; cases r3) (simp_all add: post_v1_def u a t v1 v2 v3)
qed

lemma processSale_v1_floor:
  "floor_tweet_calls (vis (snd (processSale_v1 sv s w))) = floor_tweet_calls (vis w)"
proof (cases "nft s")
  case None
  then show ?thesis by (simp add: processSale_v1_def)
next
  case (Some p)
  define w0 where "w0 = journal_add (Processing s) w"
  have f0: "floor_tweet_calls (vis w0) = floor_tweet_calls (vis w)" by (simp add: w0_def)
  obtain bc w1 where h: "getHolderNFTCount_v1 sv (buyer s) w0 = (bc, w1)"
    by (cases "getHolderNFTCount_v1 sv (buyer s) w0")
  obtain sc st w2 where r: "resolve_seller_v1 sv s w1 = ((sc, st), w2)"
    by (cases "resolve_seller_v1 sv s w1") auto
  obtain url w3 where g: "getNFTImageUrl sv (Some (identifier p)) w2 = (url, w3)"
    by (cases "getNFTImageUrl sv (Some (identifier p)) w2")
  have v1: "vis w1 = vis w0" using vis_getHolderNFTCount_v1 [of sv "buyer s" w0] by (simp add: h)
  have v2: "vis w2 = vis w1" using vis_resolve_seller_v1 [of sv s w1] by (simp add: r)
  have v3: "vis w3 = vis w2" using vis_getNFTImageUrl [of sv "Some (identifier p)" w2] by (simp add: g)
  show ?thesis
    using f0
    by (simp add: processSale_v1_def Let_def Some w0_def [symmetric] h r g v1 v2 v3 post_v1_floor
        split: option.splits sum.splits)
qed

lemma for_each_v1_floor:
  "floor_tweet_calls (vis (snd (for_each (processSale_v1 sv) xs w))) = floor_tweet_calls (vis w)"
proof (induction xs arbitrary: w)
  case Nil
  show ?case by simp
next
  case (Cons x xs)
  obtain r w' where p: "processSale_v1 sv x w = (r, w')" by (cases "processSale_v1 sv x w")
  have f: "floor_tweet_calls (vis w') = floor_tweet_calls (vis w)"
    using processSale_v1_floor [of sv x w] by (simp add: p)
  show ?case
    using Cons.IH [of w'] f by (cases r) (simp_all add: p)
qed

lemma runBot_v1_no_floor_unless_due:
  assumes "\<not> shouldPostFloorAlert_v1 sv (snd (fetchRecentSales_v1 sv w))"
  shows "floor_tweet_calls (journal (runBot_v1 sv w)) = floor_tweet_calls (journal w)"
proof -
  obtain sales w1 where f: "fetchRecentSales_v1 sv w = (sales, w1)"
    by (cases "fetchRecentSales_v1 sv w")
  have w1: "vis w1 = vis w" using vis_fetchRecentSales_v1 [of sv w] by (simp add: f)
  obtain r w' where l: "for_each (processSale_v1 sv) (take 3 sales) w1 = (r, w')"
    by (cases "for_each (processSale_v1 sv) (take 3 sales) w1")
  have m: "floor_tweet_calls (vis w') = floor_tweet_calls (vis w1)"
    using for_each_v1_floor [of sv "take 3 sales" w1] by (simp add: l)
  from assms have nd: "\<not> shouldPostFloorAlert_v1 sv w1" by (simp add: f)
  show ?thesis
    using nd
    by (cases r) (simp_all add: journal_measures runBot_v1_def f Let_def processBatch_v1_def l m w1)
qed

text \<open>
  Claim C6, as stated: a run with one or more qualifying sales never posts a floor alert.
  In the first draft of \<open>runBot\<close> the alert is guarded by \<open>if (shouldAlert)\<close> alone: with
  one valid sale fetched, the last alert 80 hours old and a listing on the floor, the floor
  report is tweeted before the sale is taken up.
\<close>

theorem runBot_v1_floor_alert_beside_sale:
  "fst (fetchRecentSales_v1 busy_market alert_due) = [sale_paying (JStr ''1000'') 1700003500]
   \<and> isValidSaleEvent (sale_paying (JStr ''1000'') 1700003500)
   \<and> shouldPostFloorAlert_v1 busy_market alert_due
   \<and> journal (runBot_v1 busy_market alert_due) =
       [TweetCall FloorReport 1 True, Processing (sale_paying (JStr ''1000'') 1700003500),
        AssetsRequest None, AssetsRequest None, AssetsRequest None]
   \<and> floor_tweet_calls (journal (runBot_v1 busy_market alert_due)) = 1"
  by (simp add: model_defs busy_market_def alert_due_def plain_services_def sale_paying_def)

text \<open>
  Claim C6, amended. In the second draft of \<open>runBot\<close> (bot.js:1279) and in part_000, whose
  guard is \<open>shouldAlert && sales.length === 0\<close>, a run that fetched one or more qualifying
  sales makes no tweet call for the floor report, whatever the time gate says. In the first
  draft (bot.js:669), whose guard is \<open>shouldAlert\<close>, a run in which the time gate is not due
  makes no tweet call for the floor report. Nothing is said of the first draft when the
  gate is due: the alert may then be tweeted beside the sales, and it is not tweeted when
  there is no listing or the image upload fails.
\<close>

theorem floor_alert_gating:
  "(fst (fetchRecentSales_v2 sv w) \<noteq> [] \<longrightarrow>
      floor_tweet_calls (journal (runBot_v2 sv w)) = floor_tweet_calls (journal w))
   \<and> (fst (fetchRecentSales_v3 sv w) \<noteq> [] \<longrightarrow>
      floor_tweet_calls (journal (runBot_v3 sv w)) = floor_tweet_calls (journal w))
   \<and> (\<not> shouldPostFloorAlert_v1 sv (snd (fetchRecentSales_v1 sv w)) \<longrightarrow>
      floor_tweet_calls (journal (runBot_v1 sv w)) = floor_tweet_calls (journal w))"
  using runBot_v2_no_floor_with_sales [of sv w] runBot_v3_no_floor_with_sales [of sv w]
    runBot_v1_no_floor_unless_due [of sv w]
  by blast

theorem floor_alert_gating_witness:
  "fst (fetchRecentSales_v2 busy_market alert_due) \<noteq> []
   \<and> shouldPostFloorAlert_v1 busy_market (snd (fetchRecentSales_v2 busy_market alert_due))
   \<and> floor_tweet_calls (journal (runBot_v2 busy_market alert_due)) = 0
   \<and> fst (fetchRecentSales_v3 busy_market alert_due) \<noteq> []
   \<and> shouldPostFloorAlert_v3 busy_market (snd (fetchRecentSales_v3 busy_market alert_due))
   \<and> floor_tweet_calls (journal (runBot_v3 busy_market alert_due)) = 0
   \<and> \<not> shouldPostFloorAlert_v1 busy_market (snd (fetchRecentSales_v1 busy_market both_stored))
   \<and> floor_tweet_calls (journal (runBot_v1 busy_market both_stored)) = 0"
proof -
  have f2: "fst (fetchRecentSales_v2 busy_market alert_due) \<noteq> []"
    and d2: "shouldPostFloorAlert_v1 busy_market (snd (fetchRecentSales_v2 busy_market alert_due))"
    and f3: "fst (fetchRecentSales_v3 busy_market alert_due) \<noteq> []"
    and d3: "shouldPostFloorAlert_v3 busy_market (snd (fetchRecentSales_v3 busy_market alert_due))"
    and nd: "\<not> shouldPostFloorAlert_v1 busy_market (snd (fetchRecentSales_v1 busy_market both_stored))"
    by (simp_all add: model_defs busy_market_def alert_due_def both_stored_def
        plain_services_def sale_paying_def)
  have j: "floor_tweet_calls (journal alert_due) = 0" "floor_tweet_calls (journal both_stored) = 0"
    by (simp_all add: alert_due_def both_stored_def)
  from floor_alert_gating [of busy_market alert_due] floor_alert_gating [of busy_market both_stored]
    f2 d2 f3 d3 nd j
  show ?thesis by simp
qed

end
